theory Spec2Isabelle
  imports Main "HOL-Library.Word"
begin

section \<open>Data model of pmash.c\<close>

text \<open>
  \<open>struct timespec\<close>: \<open>time_t tv_sec\<close> and \<open>long tv_nsec\<close>. Both are printed with
  \<open>%ld\<close> by the program, so both are 64-bit signed longs: 64-bit words, compared with
  the signed orders \<open>word_sle\<close> and \<open>word_sless\<close>. Subtraction wraps in the model
  where C leaves signed overflow undefined.
\<close>

record timespec =
  tv_sec :: "64 word"
  tv_nsec :: "64 word"

text \<open>
  \<open>pathentry_s\<close>: the arrays \<open>times1[2]\<close> and \<open>times2[2]\<close> are pairs; index 0
  (\<open>fst\<close>) is the access time, index 1 (\<open>snd\<close>) the modification time, as
  \<open>utimensat\<close> reads them.
\<close>

record pathentry_s =
  path :: string
  times1 :: "timespec \<times> timespec"
  times2 :: "timespec \<times> timespec"

text \<open>The fields of \<open>struct stat\<close> the program reads.\<close>

record stat =
  st_atim :: timespec
  st_mtim :: timespec
  st_size :: nat

definition st_atime :: "stat \<Rightarrow> 64 word" where
  "st_atime sb = tv_sec (st_atim sb)"

definition st_mtime :: "stat \<Rightarrow> 64 word" where
  "st_mtime sb = tv_sec (st_mtim sb)"

definition zero_ts :: timespec where
  "zero_ts = \<lparr>tv_sec = 0, tv_nsec = 0\<rparr>"

text \<open>What \<open>calloc(sizeof(pathentry_s), 1)\<close> followed by \<open>strdup\<close> yields: all times zero.\<close>

definition calloc_entry :: "string \<Rightarrow> pathentry_s" where
  "calloc_entry p = \<lparr>path = p, times1 = (zero_ts, zero_ts), times2 = (zero_ts, zero_ts)\<rparr>"

datatype ftw_flag = FTW_F | FTW_D | FTW_DNR | FTW_NS | FTW_SL

datatype VISIT = preorder | postorder | endorder | leaf

datatype oflag = O_RDONLY | O_WRONLY | O_CREAT | O_EXCL

datatype stream = Stdout | Outfile string

datatype error = Usage int | Die string | Insist string

definition EXIT_SUCCESS :: int where
  "EXIT_SUCCESS = 0"

definition EXIT_FAILURE :: int where
  "EXIT_FAILURE = 1"

text \<open>Linux values of the two special \<open>tv_nsec\<close> markers of \<open>utimensat\<close>.\<close>

definition UTIME_NOW :: "64 word" where
  "UTIME_NOW = 1073741823"

definition UTIME_OMIT :: "64 word" where
  "UTIME_OMIT = 1073741822"


section \<open>The operating system as the program sees it\<close>

text \<open>
  A regular file: its two timestamps and its bytes. Files are keyed by the path
  relative to the working directory with every leading \<open>./\<close> removed (\<open>canon\<close>), so
  that \<open>./a/f\<close> and \<open>a/f\<close> name the same file, as they do for the kernel. Paths
  with a doubled slash right after a leading \<open>./\<close> are outside the model.
\<close>

record inode =
  i_atim :: timespec
  i_mtim :: timespec
  i_data :: string

datatype event =
    EvOpen string
  | EvCreate string
  | EvClose string
  | EvWrite string string
  | EvRead string
  | EvStat string
  | EvSetTimes string "timespec option" "timespec option"
  | EvUnlink string
  | EvSystem string

text \<open>
  \<open>faults\<close> holds the indices (in call order, counted by \<open>ncalls\<close>) of the library
  calls that fail for a reason outside the model (EIO, ENOSPC, EACCES, ENOMEM).
  \<open>listing root\<close> is the sequence of paths \<open>nftw\<close> reports under \<open>root\<close>, in the
  order the directory stream yields them, or \<open>None\<close> when the walk fails.
  \<open>trace\<close> logs every effect a successful call had on the file system.
\<close>

record world =
  files :: "string \<rightharpoonup> inode"
  dirs :: "string set"
  listing :: "string \<Rightarrow> string list option"
  fds :: "nat \<rightharpoonup> string"
  next_fd :: nat
  clock :: timespec
  noatime :: bool
  faults :: "nat set"
  ncalls :: nat
  pid :: "32 word"
  environ :: "string \<rightharpoonup> string"
  trace :: "event list"
  stdout_txt :: string
  stderr_txt :: string

fun canon :: "string \<Rightarrow> string" where
  "canon (c # d # rest) = (if c = CHR ''.'' \<and> d = CHR ''/'' then canon rest else c # d # rest)"
| "canon p = p"

text \<open>
  A name can be created only in a directory that exists: the part of the path before
  its last slash, when it has one, must be a directory (the root when that part is
  empty). A path without a slash lies in the working directory.
\<close>

definition parent_dir :: "string \<Rightarrow> string option" where
  "parent_dir q =
     (if CHR ''/'' \<in> set q
      then Some (rev (tl (dropWhile (\<lambda>c. c \<noteq> CHR ''/'') (rev q))))
      else None)"

definition parent_ok :: "string \<Rightarrow> world \<Rightarrow> bool" where
  "parent_ok q w =
     (case parent_dir q of None \<Rightarrow> True | Some d \<Rightarrow> d = [] \<or> d \<in> dirs w)"

definition tick :: "world \<Rightarrow> bool \<times> world" where
  "tick w = (ncalls w \<in> faults w, w\<lparr>ncalls := Suc (ncalls w)\<rparr>)"

definition log :: "event \<Rightarrow> world \<Rightarrow> world" where
  "log ev w = w\<lparr>trace := trace w @ [ev]\<rparr>"

definition stat_of :: "inode \<Rightarrow> stat" where
  "stat_of ino = \<lparr>st_atim = i_atim ino, st_mtim = i_mtim ino, st_size = length (i_data ino)\<rparr>"

definition alloc_fd :: "string \<Rightarrow> world \<Rightarrow> nat \<times> world" where
  "alloc_fd q w = (next_fd w, w\<lparr>fds := (fds w)(next_fd w \<mapsto> q), next_fd := Suc (next_fd w)\<rparr>)"

text \<open>
  \<open>open(2)\<close>. With \<open>O_CREAT|O_EXCL\<close> the call fails when the name exists; without
  \<open>O_CREAT\<close> it fails when the name does not exist. A new name needs its directory.
\<close>

definition sys_open :: "string \<Rightarrow> oflag set \<Rightarrow> world \<Rightarrow> nat option \<times> world" where
  "sys_open p fl w0 =
     (let (bad, w) = tick w0; q = canon p;
          present = (q \<in> dom (files w) \<or> q \<in> dirs w)
      in if bad then (None, w)
         else if present then
           (if O_CREAT \<in> fl \<and> O_EXCL \<in> fl then (None, w)
            else (let (fd, w') = alloc_fd q w in (Some fd, log (EvOpen q) w')))
         else if O_CREAT \<in> fl \<and> parent_ok q w then
           (let (fd, w') = alloc_fd q w
            in (Some fd,
                log (EvCreate q)
                  (w'\<lparr>files := (files w')(q \<mapsto>
                        \<lparr>i_atim = clock w, i_mtim = clock w, i_data = []\<rparr>)\<rparr>)))
         else (None, w))"

definition sys_close :: "nat \<Rightarrow> world \<Rightarrow> unit option \<times> world" where
  "sys_close fd w0 =
     (let (bad, w) = tick w0
      in if bad then (None, w)
         else (case fds w fd of
                 None \<Rightarrow> (None, w)
               | Some q \<Rightarrow> (Some (), log (EvClose q) (w\<lparr>fds := (fds w)(fd := None)\<rparr>))))"

definition sys_write :: "nat \<Rightarrow> string \<Rightarrow> world \<Rightarrow> nat option \<times> world" where
  "sys_write fd buf w0 =
     (let (bad, w) = tick w0
      in if bad then (None, w)
         else (case fds w fd of
                 None \<Rightarrow> (None, w)
               | Some q \<Rightarrow>
                   (case files w q of
                      None \<Rightarrow> (None, w)
                    | Some ino \<Rightarrow>
                        (Some (length buf),
                         log (EvWrite q buf)
                           (w\<lparr>files := (files w)(q \<mapsto>
                                 ino\<lparr>i_data := i_data ino @ buf, i_mtim := clock w\<rparr>)\<rparr>)))))"

text \<open>\<open>read(2)\<close> stamps the access time unless the mount suppresses it.\<close>

definition sys_read :: "nat \<Rightarrow> nat \<Rightarrow> world \<Rightarrow> string option \<times> world" where
  "sys_read fd n w0 =
     (let (bad, w) = tick w0
      in if bad then (None, w)
         else (case fds w fd of
                 None \<Rightarrow> (None, w)
               | Some q \<Rightarrow>
                   (case files w q of
                      None \<Rightarrow> (None, w)
                    | Some ino \<Rightarrow>
                        (Some (take n (i_data ino)),
                         log (EvRead q)
                           (w\<lparr>files := (files w)(q \<mapsto>
                                 (if noatime w then ino else ino\<lparr>i_atim := clock w\<rparr>))\<rparr>)))))"

definition sys_stat :: "string \<Rightarrow> world \<Rightarrow> stat option \<times> world" where
  "sys_stat p w0 =
     (let (bad, w) = tick w0; q = canon p
      in if bad then (None, w)
         else (case files w q of
                 None \<Rightarrow> (None, w)
               | Some ino \<Rightarrow> (Some (stat_of ino), log (EvStat q) w)))"

definition sys_fstat :: "nat \<Rightarrow> world \<Rightarrow> stat option \<times> world" where
  "sys_fstat fd w0 =
     (let (bad, w) = tick w0
      in if bad then (None, w)
         else (case fds w fd of
                 None \<Rightarrow> (None, w)
               | Some q \<Rightarrow>
                   (case files w q of
                      None \<Rightarrow> (None, w)
                    | Some ino \<Rightarrow> (Some (stat_of ino), log (EvStat q) w))))"

text \<open>
  What \<open>utimensat\<close> and \<open>futimens\<close> do with one element of their \<open>times\<close> array:
  \<open>UTIME_NOW\<close> takes the clock, \<open>UTIME_OMIT\<close> keeps the old value, anything else is
  stored as it is.
\<close>

definition new_time :: "timespec \<Rightarrow> timespec \<Rightarrow> timespec \<Rightarrow> timespec" where
  "new_time now old t =
     (if tv_nsec t = UTIME_NOW then now else if tv_nsec t = UTIME_OMIT then old else t)"

definition time_arg :: "timespec \<Rightarrow> timespec \<Rightarrow> timespec option" where
  "time_arg now t =
     (if tv_nsec t = UTIME_NOW then Some now else if tv_nsec t = UTIME_OMIT then None else Some t)"

definition set_times :: "string \<Rightarrow> timespec \<times> timespec \<Rightarrow> inode \<Rightarrow> world \<Rightarrow> world" where
  "set_times q ts ino w =
     log (EvSetTimes q (time_arg (clock w) (fst ts)) (time_arg (clock w) (snd ts)))
       (w\<lparr>files := (files w)(q \<mapsto>
             ino\<lparr>i_atim := new_time (clock w) (i_atim ino) (fst ts),
                 i_mtim := new_time (clock w) (i_mtim ino) (snd ts)\<rparr>)\<rparr>)"

definition sys_utimensat :: "string \<Rightarrow> timespec \<times> timespec \<Rightarrow> world \<Rightarrow> unit option \<times> world" where
  "sys_utimensat p ts w0 =
     (let (bad, w) = tick w0; q = canon p
      in if bad then (None, w)
         else (case files w q of
                 None \<Rightarrow> (None, w)
               | Some ino \<Rightarrow> (Some (), set_times q ts ino w)))"

definition sys_futimens :: "nat \<Rightarrow> timespec \<times> timespec \<Rightarrow> world \<Rightarrow> unit option \<times> world" where
  "sys_futimens fd ts w0 =
     (let (bad, w) = tick w0
      in if bad then (None, w)
         else (case fds w fd of
                 None \<Rightarrow> (None, w)
               | Some q \<Rightarrow>
                   (case files w q of
                      None \<Rightarrow> (None, w)
                    | Some ino \<Rightarrow> (Some (), set_times q ts ino w))))"

definition sys_unlink :: "string \<Rightarrow> world \<Rightarrow> unit option \<times> world" where
  "sys_unlink p w0 =
     (let (bad, w) = tick w0; q = canon p
      in if bad then (None, w)
         else (case files w q of
                 None \<Rightarrow> (None, w)
               | Some ino \<Rightarrow> (Some (), log (EvUnlink q) (w\<lparr>files := (files w)(q := None)\<rparr>))))"

text \<open>\<open>fopen(name, "w")\<close>: creates the file or truncates it.\<close>

definition sys_fopen_w :: "string \<Rightarrow> world \<Rightarrow> stream option \<times> world" where
  "sys_fopen_w p w0 =
     (let (bad, w) = tick w0; q = canon p
      in if bad \<or> q \<in> dirs w then (None, w)
         else (case files w q of
                 None \<Rightarrow>
                   if \<not> parent_ok q w then (None, w)
                   else
                   (Some (Outfile p),
                    log (EvCreate q)
                      (w\<lparr>files := (files w)(q \<mapsto>
                            \<lparr>i_atim = clock w, i_mtim = clock w, i_data = []\<rparr>)\<rparr>))
               | Some ino \<Rightarrow>
                   (Some (Outfile p),
                    log (EvWrite q [])
                      (w\<lparr>files := (files w)(q \<mapsto> ino\<lparr>i_mtim := clock w, i_data := []\<rparr>)\<rparr>))))"

text \<open>A library call that allocates (\<open>asprintf\<close>, \<open>tsearch\<close>) fails only by a fault.\<close>

definition alloc_ok :: "'a \<Rightarrow> world \<Rightarrow> 'a option \<times> world" where
  "alloc_ok v w0 = (let (bad, w) = tick w0 in if bad then (None, w) else (Some v, w))"


section \<open>Process state, exit and insist\<close>

datatype 'a tree = Empty | Node "'a tree" 'a "'a tree"

text \<open>
  The globals of pmash.c (\<open>tree1\<close>, \<open>tree2\<close>, \<open>fp\<close>, \<open>verbosity\<close>, \<open>prog\<close>) and the
  operating system they run on. \<open>fp_buf\<close> is the stdio buffer of \<open>fp\<close>: what
  \<open>fputs\<close>, \<open>fprintf\<close> and \<open>fputc\<close> wrote and \<open>fclose\<close> or \<open>exit\<close> have not flushed yet.
\<close>

record state =
  tree1 :: "pathentry_s tree"
  tree2 :: "pathentry_s tree"
  fp :: stream
  fp_buf :: string
  verbosity :: int
  prog :: string
  os :: world

type_synonym 'a proc = "state \<Rightarrow> (error + 'a) \<times> state"

definition fputs :: "string \<Rightarrow> state \<Rightarrow> state" where
  "fputs str s = s\<lparr>fp_buf := fp_buf s @ str\<rparr>"

definition fputc :: "char \<Rightarrow> state \<Rightarrow> state" where
  "fputc c s = s\<lparr>fp_buf := fp_buf s @ [c]\<rparr>"

definition eputs :: "string \<Rightarrow> state \<Rightarrow> state" where
  "eputs str s = s\<lparr>os := (os s)\<lparr>stderr_txt := stderr_txt (os s) @ str\<rparr>\<rparr>"

text \<open>
  Flushing \<open>fp\<close>: buffered text reaches standard output, or the output file when it is
  still there under its name.
\<close>

definition fflush_fp :: "state \<Rightarrow> state" where
  "fflush_fp s =
     (if fp_buf s = [] then s
      else (case fp s of
              Stdout \<Rightarrow>
                s\<lparr>fp_buf := [], os := (os s)\<lparr>stdout_txt := stdout_txt (os s) @ fp_buf s\<rparr>\<rparr>
            | Outfile p \<Rightarrow>
                (case files (os s) (canon p) of
                   None \<Rightarrow> s\<lparr>fp_buf := []\<rparr>
                 | Some ino \<Rightarrow>
                     s\<lparr>fp_buf := [],
                       os := log (EvWrite (canon p) (fp_buf s))
                               ((os s)\<lparr>files := (files (os s))(canon p \<mapsto>
                                   ino\<lparr>i_data := i_data ino @ fp_buf s,
                                       i_mtim := clock (os s)\<rparr>)\<rparr>)\<rparr>)))"

text \<open>\<open>exit\<close> flushes the open streams; the status is carried by the result value.\<close>

definition exit_with :: "error \<Rightarrow> 'a proc" where
  "exit_with e s = (Inl e, fflush_fp s)"

definition exit_status :: "error + int \<Rightarrow> int" where
  "exit_status r = (case r of Inl (Usage rc) \<Rightarrow> rc | Inl (Die m) \<Rightarrow> EXIT_FAILURE
                    | Inl (Insist t) \<Rightarrow> EXIT_FAILURE | Inr rc \<Rightarrow> rc)"

definition die :: "string \<Rightarrow> 'a proc" where
  "die msg s = exit_with (Die msg) (eputs (prog s @ '': Error: '' @ msg @ [CHR 0x0A]) s)"

text \<open>
  \<open>insist(success, term)\<close>: on failure the message goes to standard error and the
  process exits at once with \<open>EXIT_FAILURE\<close>. The text of \<open>strerror(errno)\<close> is
  not modelled.
\<close>

definition insist :: "bool \<Rightarrow> string \<Rightarrow> unit proc" where
  "insist success term s =
     (if success then (Inr (), s)
      else exit_with (Insist term)
             (eputs (prog s @ '': Error: '' @ term @ '': strerror(errno)'' @ [CHR 0x0A]) s))"

definition andthen :: "'a proc \<Rightarrow> ('a \<Rightarrow> 'b proc) \<Rightarrow> 'b proc" where
  "andthen m k s = (case m s of (Inl e, s') \<Rightarrow> (Inl e, s') | (Inr v, s') \<Rightarrow> k v s')"

definition return :: "'a \<Rightarrow> 'a proc" where
  "return v s = (Inr v, s)"


text \<open>A library call run on the operating system; \<open>None\<close> is its failure value.\<close>

definition call :: "(world \<Rightarrow> 'a option \<times> world) \<Rightarrow> 'a option proc" where
  "call f s = (case f (os s) of (r, w) \<Rightarrow> (Inr r, s\<lparr>os := w\<rparr>))"

text \<open>The idiom \<open>insist((x = f(...)) != -1, term)\<close>.\<close>

definition syscall :: "(world \<Rightarrow> 'a option \<times> world) \<Rightarrow> string \<Rightarrow> 'a proc" where
  "syscall f term =
     andthen (call f) (\<lambda>r. andthen (insist (r \<noteq> None) term) (\<lambda>_. return (the r)))"


section \<open>Strings and formatting\<close>

text \<open>
  \<open>strcmp\<close>: bytes compare as unsigned chars; the C standard fixes only the sign of the
  result. A C string holds no NUL byte, so a proper prefix is the smaller string.
\<close>

fun strcmp :: "string \<Rightarrow> string \<Rightarrow> int" where
  "strcmp [] [] = 0"
| "strcmp [] (d # ds) = -1"
| "strcmp (c # cs) [] = 1"
| "strcmp (c # cs) (d # ds) =
     (if c = d then strcmp cs ds
      else if (of_char c :: nat) < of_char d then -1 else 1)"

fun has_prefix :: "string \<Rightarrow> string \<Rightarrow> bool" where
  "has_prefix [] s = True"
| "has_prefix (c # cs) [] = False"
| "has_prefix (c # cs) (d # ds) = (c = d \<and> has_prefix cs ds)"

text \<open>\<open>strstr haystack needle\<close> is true when the C function returns a non-null pointer.\<close>

fun strstr :: "string \<Rightarrow> string \<Rightarrow> bool" where
  "strstr [] needle = (needle = [])"
| "strstr (c # cs) needle = (has_prefix needle (c # cs) \<or> strstr cs needle)"

definition digit :: "nat \<Rightarrow> char" where
  "digit n = ''0123456789'' ! (n mod 10)"

function dec :: "nat \<Rightarrow> string" where
  "dec n = (if n < 10 then [digit n] else dec (n div 10) @ [digit (n mod 10)])"
  by pat_completeness auto
termination
  by (relation "measure id") auto

declare dec.simps [simp del]

text \<open>\<open>%0<width>ld\<close>; with width 0 it is plain \<open>%ld\<close>.\<close>

definition fmt_ld :: "nat \<Rightarrow> 64 word \<Rightarrow> string" where
  "fmt_ld width v =
     (let i = sint v;
          sign = (if i < 0 then ''-'' else []);
          ds = dec (nat \<bar>i\<bar>)
      in sign @ replicate (width - length sign - length ds) CHR ''0'' @ ds)"

text \<open>\<open>%-24s\<close>\<close>

definition fmt_s24 :: "string \<Rightarrow> string" where
  "fmt_s24 str = str @ replicate (24 - length str) CHR '' ''"

definition fmt_ts :: "timespec \<Rightarrow> string" where
  "fmt_ts t = fmt_ld 10 (tv_sec t) @ ''.'' @ fmt_ld 9 (tv_nsec t)"

text \<open>The macro \<open>TMFMT\<close> applied to the eight fields of an entry.\<close>

definition TMFMT :: "pathentry_s \<Rightarrow> string" where
  "TMFMT p = ''a1='' @ fmt_ts (fst (times1 p)) @ '' m1='' @ fmt_ts (snd (times1 p))
           @ '' a2='' @ fmt_ts (fst (times2 p)) @ '' m2='' @ fmt_ts (snd (times2 p))"


section \<open>The classifier: \<open>post_walk\<close>\<close>

text \<open>The value of the local \<open>prereq\<close> after the if-chain of \<open>post_walk\<close>.\<close>

definition prereq_of :: "pathentry_s \<Rightarrow> bool" where
  "prereq_of p =
     (if word_sless (tv_sec (snd (times1 p))) (tv_sec (snd (times2 p))) then False
      else if tv_sec (snd (times2 p)) = tv_sec (snd (times1 p)) \<and>
              word_sless (tv_nsec (snd (times1 p))) (tv_nsec (snd (times2 p))) then False
      else if word_sle (tv_sec (fst (times2 p))) (tv_sec (fst (times1 p))) then False
      else if tv_sec (fst (times2 p)) = tv_sec (fst (times1 p)) \<and>
              word_sle (tv_nsec (fst (times2 p))) (tv_nsec (fst (times1 p))) then False
      else True)"

definition post_walk :: "pathentry_s \<Rightarrow> VISIT \<Rightarrow> nat \<Rightarrow> state \<Rightarrow> state" where
  "post_walk p which depth s =
     (if which = postorder \<or> which = leaf then
        (if prereq_of p then
           fputc (CHR 0x0A)
             ((if verbosity s \<noteq> 0 then fputs ('' # '' @ TMFMT p) else id)
                (fputs (path p) s))
         else if verbosity s \<noteq> 0 then
           fputs (''## '' @ fmt_s24 (path p) @ '': '' @ TMFMT p @ [CHR 0x0A]) s
         else s)
      else s)"


section \<open>The snapshot store: \<open>tsearch\<close>, \<open>tfind\<close>, \<open>twalk\<close>\<close>

definition pathcmp :: "pathentry_s \<Rightarrow> pathentry_s \<Rightarrow> int" where
  "pathcmp pa pb = strcmp (path pa) (path pb)"

text \<open>
  POSIX binary search trees. \<open>tfind\<close> yields the stored item that compares equal to
  the key; \<open>tsearch\<close> adds the key only when no stored item compares equal and leaves
  the tree as it is otherwise. The model does not rebalance; the theorems about the
  traversal are stated for every search tree, whatever its shape.
\<close>

fun tfind :: "'a \<Rightarrow> 'a tree \<Rightarrow> ('a \<Rightarrow> 'a \<Rightarrow> int) \<Rightarrow> 'a option" where
  "tfind key Empty compar = None"
| "tfind key (Node l x r) compar =
     (if compar key x = 0 then Some x
      else if compar key x < 0 then tfind key l compar
      else tfind key r compar)"

fun tsearch :: "'a \<Rightarrow> 'a tree \<Rightarrow> ('a \<Rightarrow> 'a \<Rightarrow> int) \<Rightarrow> 'a tree" where
  "tsearch key Empty compar = Node Empty key Empty"
| "tsearch key (Node l x r) compar =
     (if compar key x = 0 then Node l x r
      else if compar key x < 0 then Node (tsearch key l compar) x r
      else Node l x (tsearch key r compar))"

text \<open>
  \<open>twalk\<close>: depth first, left to right; a node without children is visited once as
  \<open>leaf\<close>, any other node three times: \<open>preorder\<close> before its left subtree,
  \<open>postorder\<close> between the subtrees, \<open>endorder\<close> after the right one.
\<close>

fun twalk_from :: "'a tree \<Rightarrow> nat \<Rightarrow> ('a \<Rightarrow> VISIT \<Rightarrow> nat \<Rightarrow> 's \<Rightarrow> 's) \<Rightarrow> 's \<Rightarrow> 's" where
  "twalk_from Empty depth action s = s"
| "twalk_from (Node l x r) depth action s =
     (if l = Empty \<and> r = Empty then action x leaf depth s
      else action x endorder depth
             (twalk_from r (Suc depth) action
                (action x postorder depth
                   (twalk_from l (Suc depth) action
                      (action x preorder depth s)))))"

definition twalk :: "'a tree \<Rightarrow> ('a \<Rightarrow> VISIT \<Rightarrow> nat \<Rightarrow> 's \<Rightarrow> 's) \<Rightarrow> 's \<Rightarrow> 's" where
  "twalk root action s = twalk_from root 0 action s"

fun inorder :: "'a tree \<Rightarrow> 'a list" where
  "inorder Empty = []"
| "inorder (Node l x r) = inorder l @ x # inorder r"

text \<open>
  \<open>insist(tsearch(p, &tree, pathcmp) != NULL, term)\<close>: \<open>tsearch\<close> returns null only
  when it needs a new node and cannot allocate it.
\<close>

definition tsearch_pre :: "pathentry_s \<Rightarrow> unit proc" where
  "tsearch_pre p1 s =
     (case tfind p1 (tree1 s) pathcmp of
        Some found \<Rightarrow> insist True ''tsearch(&pre)'' s
      | None \<Rightarrow>
          andthen (syscall (alloc_ok ()) ''tsearch(&pre)'')
            (\<lambda>_ s'. (Inr (), s'\<lparr>tree1 := tsearch p1 (tree1 s') pathcmp\<rparr>)) s)"

definition tsearch_post :: "pathentry_s \<Rightarrow> unit proc" where
  "tsearch_post p2 s =
     (case tfind p2 (tree2 s) pathcmp of
        Some found \<Rightarrow> insist True ''tsearch(&post)'' s
      | None \<Rightarrow>
          andthen (syscall (alloc_ok ()) ''tsearch(&post)'')
            (\<lambda>_ s'. (Inr (), s'\<lparr>tree2 := tsearch p2 (tree2 s') pathcmp\<rparr>)) s)"


section \<open>The two walkers\<close>

definition excluded :: "string \<Rightarrow> bool" where
  "excluded fpath = (strstr fpath ''.git'' \<or> strstr fpath ''.svn'' \<or> strstr fpath ''.swp'')"

text \<open>\<open>if (fpath[0] == '.' && fpath[1] == '/') fpath += 2;\<close>\<close>

definition skip_dot_slash :: "string \<Rightarrow> string" where
  "skip_dot_slash fpath =
     (case fpath of
        c # d # rest \<Rightarrow> if c = CHR ''.'' \<and> d = CHR ''/'' then rest else fpath
      | _ \<Rightarrow> fpath)"

definition pre_entry :: "string \<Rightarrow> stat \<Rightarrow> pathentry_s" where
  "pre_entry fpath sb =
     (calloc_entry fpath)
       \<lparr>times1 := (\<lparr>tv_sec = st_mtime sb - 1, tv_nsec = 0\<rparr>,
                   \<lparr>tv_sec = st_mtime sb, tv_nsec = tv_nsec (st_mtim sb)\<rparr>)\<rparr>"

definition nftw_pre_callback :: "string \<Rightarrow> stat \<Rightarrow> ftw_flag \<Rightarrow> int proc" where
  "nftw_pre_callback fpath0 sb tflag =
     (if tflag \<noteq> FTW_F then return 0
      else if excluded fpath0 then return 0
      else (let fpath = skip_dot_slash fpath0;
                p1 = pre_entry fpath sb
            in andthen (syscall (sys_utimensat fpath (times1 p1)) fpath)
                 (\<lambda>_. andthen (tsearch_pre p1) (\<lambda>_. return 0))))"

text \<open>
  The entry the post-run callback builds before it consults \<open>tree1\<close>: sentinel seconds
  \<open>-2\<close> and \<open>-1\<close> in \<open>times1\<close> (nanoseconds stay zero from \<open>calloc\<close>) and the observed
  times in \<open>times2\<close>.
\<close>

definition post_entry :: "string \<Rightarrow> stat \<Rightarrow> pathentry_s" where
  "post_entry fpath sb =
     (calloc_entry fpath)
       \<lparr>times1 := (\<lparr>tv_sec = - 2, tv_nsec = 0\<rparr>, \<lparr>tv_sec = - 1, tv_nsec = 0\<rparr>),
        times2 := (\<lparr>tv_sec = st_atime sb, tv_nsec = tv_nsec (st_atim sb)\<rparr>,
                   \<lparr>tv_sec = st_mtime sb, tv_nsec = tv_nsec (st_mtim sb)\<rparr>)\<rparr>"

definition merge_pre :: "pathentry_s tree \<Rightarrow> pathentry_s \<Rightarrow> pathentry_s" where
  "merge_pre t1 p2 =
     (case tfind p2 t1 pathcmp of
        None \<Rightarrow> p2
      | Some p1 \<Rightarrow>
          p2\<lparr>times1 := (\<lparr>tv_sec = tv_sec (fst (times1 p1)), tv_nsec = tv_nsec (fst (times1 p1))\<rparr>,
                        \<lparr>tv_sec = tv_sec (snd (times1 p1)), tv_nsec = tv_nsec (snd (times1 p1))\<rparr>)\<rparr>)"

definition nftw_post_callback :: "string \<Rightarrow> stat \<Rightarrow> ftw_flag \<Rightarrow> int proc" where
  "nftw_post_callback fpath0 sb tflag =
     (if tflag \<noteq> FTW_F then return 0
      else if excluded fpath0 then return 0
      else (let fpath = skip_dot_slash fpath0
            in (\<lambda>s. andthen (tsearch_post (merge_pre (tree1 s) (post_entry fpath sb)))
                       (\<lambda>_. return 0) s)))"

text \<open>
  \<open>nftw\<close> without \<open>FTW_PHYS\<close>: every reported path is statted when it is visited; a
  path that names a regular file is handed to the callback as \<open>FTW_F\<close> with its
  current \<open>stat\<close>. A non-zero return of the callback stops the walk and is returned.
\<close>

definition nftw_visit :: "world \<Rightarrow> string \<Rightarrow> stat \<times> ftw_flag" where
  "nftw_visit w name =
     (case files w (canon name) of
        Some ino \<Rightarrow> (stat_of ino, FTW_F)
      | None \<Rightarrow>
          (\<lparr>st_atim = zero_ts, st_mtim = zero_ts, st_size = 0\<rparr>,
           if canon name \<in> dirs w then FTW_D else FTW_NS))"

fun nftw_each :: "string list \<Rightarrow> (string \<Rightarrow> stat \<Rightarrow> ftw_flag \<Rightarrow> int proc) \<Rightarrow> int proc" where
  "nftw_each [] fn s = (Inr 0, s)"
| "nftw_each (name # names) fn s =
     (case fn name (fst (nftw_visit (os s) name)) (snd (nftw_visit (os s) name)) s of
        (Inl e, s') \<Rightarrow> (Inl e, s')
      | (Inr r, s') \<Rightarrow> if r \<noteq> 0 then (Inr r, s') else nftw_each names fn s')"

definition nftw :: "string \<Rightarrow> (string \<Rightarrow> stat \<Rightarrow> ftw_flag \<Rightarrow> int proc) \<Rightarrow> int proc" where
  "nftw root fn s =
     (case tick (os s) of
        (bad, w) \<Rightarrow>
          if bad then (Inr (- 1), s\<lparr>os := w\<rparr>)
          else (case listing w root of
                  None \<Rightarrow> (Inr (- 1), s\<lparr>os := w\<rparr>)
                | Some names \<Rightarrow> nftw_each names fn (s\<lparr>os := w\<rparr>)))"


section \<open>The timestamp probe (body of the first loop of \<open>main\<close>)\<close>

definition asprintf_tmp :: "string \<Rightarrow> string proc" where
  "asprintf_tmp dir s =
     syscall (alloc_ok (dir @ ''/audit.'' @ fmt_ld 0 (scast (pid (os s))) @ ''.tmp''))
       ''asprintf()'' s"

definition probe_times :: "stat \<Rightarrow> timespec \<times> timespec" where
  "probe_times ostats =
     (\<lparr>tv_sec = st_mtime ostats - 1, tv_nsec = 0\<rparr>, \<lparr>tv_sec = 0, tv_nsec = UTIME_OMIT\<rparr>)"

definition atime_behind :: "stat \<Rightarrow> bool" where
  "atime_behind nstats =
     (word_sless (st_atime nstats) (st_mtime nstats) \<or>
      (st_atime nstats = st_mtime nstats \<and>
       word_sless (tv_nsec (st_atim nstats)) (tv_nsec (st_mtim nstats))))"

text \<open>
  The probe, in the order of the source. Lines 281 and 282: the directory is opened
  and closed.
\<close>

definition probe_check_dir :: "string \<Rightarrow> unit proc" where
  "probe_check_dir dir =
     andthen (syscall (sys_open dir {O_RDONLY}) dir) (\<lambda>dfd.
     syscall (sys_close dfd) dir)"

text \<open>Lines 288 to 291: the name is built and the file created with \<open>O_EXCL\<close>.\<close>

definition probe_create :: "string \<Rightarrow> (string \<times> nat) proc" where
  "probe_create dir =
     andthen (asprintf_tmp dir) (\<lambda>atime_tmp.
     andthen (syscall (sys_open atime_tmp {O_CREAT, O_WRONLY, O_EXCL}) atime_tmp) (\<lambda>fd.
     return (atime_tmp, fd)))"

text \<open>Lines 292 to 296: \<open>write\<close>, \<open>fstat\<close>, \<open>futimens\<close>, \<open>close\<close>.\<close>

definition probe_backdate :: "string \<Rightarrow> nat \<Rightarrow> unit proc" where
  "probe_backdate atime_tmp fd =
     andthen (syscall (sys_write fd (''data'' @ [CHR 0x0A])) atime_tmp) (\<lambda>_.
     andthen (syscall (sys_fstat fd) atime_tmp) (\<lambda>ostats.
     andthen (syscall (sys_futimens fd (probe_times ostats)) atime_tmp) (\<lambda>_.
     syscall (sys_close fd) atime_tmp)))"

text \<open>Lines 297 to 299: the file is opened again, read (\<open>sizeof(buf)\<close> is 6) and closed.\<close>

definition probe_readback :: "string \<Rightarrow> unit proc" where
  "probe_readback atime_tmp =
     andthen (syscall (sys_open atime_tmp {O_RDONLY}) atime_tmp) (\<lambda>fd.
     andthen (syscall (sys_read fd 6) atime_tmp) (\<lambda>_.
     syscall (sys_close fd) atime_tmp))"

text \<open>Lines 300 to 307: \<open>stat\<close>, \<open>unlink\<close>, and the verdict on the two timestamps.\<close>

definition probe_finish :: "string \<Rightarrow> unit proc" where
  "probe_finish atime_tmp =
     andthen (syscall (sys_stat atime_tmp) atime_tmp) (\<lambda>nstats.
     andthen (syscall (sys_unlink atime_tmp) atime_tmp) (\<lambda>_.
     if atime_behind nstats then die ''atimes not updated here'' else return ()))"

text \<open>Everything the probe does with the temporary file once it exists.\<close>

definition probe_use :: "string \<Rightarrow> nat \<Rightarrow> unit proc" where
  "probe_use atime_tmp fd =
     andthen (probe_backdate atime_tmp fd) (\<lambda>_.
     andthen (probe_readback atime_tmp) (\<lambda>_.
     probe_finish atime_tmp))"

definition probe :: "string \<Rightarrow> unit proc" where
  "probe dir =
     andthen (probe_check_dir dir) (\<lambda>_.
     andthen (probe_create dir) (\<lambda>created.
     probe_use (fst created) (snd created)))"

text \<open>The name of the temporary file as the file system knows it.\<close>

definition probe_tmp :: "string \<Rightarrow> world \<Rightarrow> string" where
  "probe_tmp dir w = canon (dir @ ''/audit.'' @ fmt_ld 0 (scast (pid w)) @ ''.tmp'')"


section \<open>\<open>main\<close>\<close>

text \<open>\<open>strtok(strdup(watchdirs), ",")\<close> and its successors: the non-empty pieces.\<close>

fun strtok_acc :: "char \<Rightarrow> string \<Rightarrow> string \<Rightarrow> string list" where
  "strtok_acc delim cur [] = (if cur = [] then [] else [cur])"
| "strtok_acc delim cur (c # cs) =
     (if c = delim then (if cur = [] then strtok_acc delim [] cs
                         else cur # strtok_acc delim [] cs)
      else strtok_acc delim (cur @ [c]) cs)"

definition strtok_all :: "string \<Rightarrow> char \<Rightarrow> string list" where
  "strtok_all str delim = strtok_acc delim [] str"

fun for_each :: "'a list \<Rightarrow> ('a \<Rightarrow> unit proc) \<Rightarrow> unit proc" where
  "for_each [] body s = (Inr (), s)"
| "for_each (x # xs) body s =
     (case body x s of (Inl e, s') \<Rightarrow> (Inl e, s') | (Inr u, s') \<Rightarrow> for_each xs body s')"

definition pre_dir :: "string \<Rightarrow> unit proc" where
  "pre_dir dir =
     andthen (probe dir) (\<lambda>_.
     andthen (nftw dir nftw_pre_callback) (\<lambda>r. insist (r \<noteq> - 1) dir))"

definition post_dir :: "string \<Rightarrow> unit proc" where
  "post_dir dir = andthen (nftw dir nftw_post_callback) (\<lambda>r. insist (r \<noteq> - 1) dir)"

text \<open>
  What \<open>getopt_long\<close> hands to the switch, one value per loop iteration. For an option
  it does not know it returns \<open>?\<close> after writing its own diagnostic, carried here by
  \<open>Opt_unknown\<close>, to standard error; the switch has no case for it.
\<close>

datatype opt =
    Opt_h | Opt_c string | Opt_e | Opt_o string | Opt_V | Opt_w string | Opt_unknown string

record settings =
  cmdstr :: "string option"
  outfile :: "string option"
  watchdirs :: string

definition fmt_s18 :: "string \<Rightarrow> string" where
  "fmt_s18 str = str @ replicate (18 - length str) CHR '' ''"

definition usage_line :: "string \<Rightarrow> string \<Rightarrow> string" where
  "usage_line a b = ''   '' @ fmt_s18 a @ '' '' @ b @ [CHR 0x0A]"

definition usage_text :: "string \<Rightarrow> string" where
  "usage_text pr =
     ''Usage: '' @ pr @ '' -c <cmd> [-o <outfile>] [-w dir[,dir,...]]'' @ [CHR 0x0A]
     @ usage_line ''-h/--help'' ''Print this usage summary''
     @ usage_line ''-c/--command'' ''Command to invoke''
     @ usage_line ''-e/--errexit'' ''Exit on first error''
     @ usage_line ''-o/--outfile'' ''File path to save prereq list''
     @ usage_line ''-V/--verbose'' ''Bump verbosity mode''
     @ usage_line ''-w/--watch'' ''Directories to monitor''"

definition usage :: "int \<Rightarrow> 'a proc" where
  "usage rc s =
     exit_with (Usage rc)
       (if rc = EXIT_SUCCESS
        then s\<lparr>os := (os s)\<lparr>stdout_txt := stdout_txt (os s) @ usage_text (prog s)\<rparr>\<rparr>
        else eputs (usage_text (prog s)) s)"

fun getopt_loop :: "opt list \<Rightarrow> settings \<Rightarrow> settings proc" where
  "getopt_loop [] st s = (Inr st, s)"
| "getopt_loop (Opt_h # rest) st s = usage EXIT_SUCCESS s"
| "getopt_loop (Opt_c a # rest) st s = getopt_loop rest (st\<lparr>cmdstr := Some a\<rparr>) s"
| "getopt_loop (Opt_e # rest) st s = getopt_loop rest st s"
| "getopt_loop (Opt_o a # rest) st s = getopt_loop rest (st\<lparr>outfile := Some a\<rparr>) s"
| "getopt_loop (Opt_V # rest) st s = getopt_loop rest st (s\<lparr>verbosity := verbosity s + 1\<rparr>)"
| "getopt_loop (Opt_w a # rest) st s = getopt_loop rest (st\<lparr>watchdirs := a\<rparr>) s"
| "getopt_loop (Opt_unknown diag # rest) st s = getopt_loop rest st (eputs diag s)"

text \<open>\<open>prog = strrchr(argv[0], '/'); prog = prog ? prog + 1 : argv[0];\<close>\<close>

fun after_last_slash :: "string \<Rightarrow> string \<Rightarrow> string" where
  "after_last_slash acc [] = acc"
| "after_last_slash acc (c # cs) =
     (if c = CHR ''/'' then after_last_slash cs cs else after_last_slash acc cs)"

definition open_output :: "string option \<Rightarrow> unit proc" where
  "open_output out =
     (case out of
        Some name \<Rightarrow>
          andthen (syscall (sys_fopen_w name) name) (\<lambda>f s. (Inr (), s\<lparr>fp := f, fp_buf := []\<rparr>))
      | None \<Rightarrow> (\<lambda>s. (Inr (), s\<lparr>fp := Stdout, fp_buf := []\<rparr>)))"

text \<open>The echo of the command line on standard error (lines 315 to 328).\<close>

definition echo_arg :: "bool \<Rightarrow> string \<Rightarrow> string" where
  "echo_arg notlast a =
     (if strstr a '' '' then [CHR 0x22] else [])
     @ a @ (if notlast then '' '' else [])
     @ (if strstr a '' '' then [CHR 0x22] else [])"

fun echo_args :: "string list \<Rightarrow> string" where
  "echo_args [] = []"
| "echo_args [a] = echo_arg False a"
| "echo_args (a # b # rest) = echo_arg True a @ echo_args (b # rest)"

definition echo_command :: "string list \<Rightarrow> string \<Rightarrow> string proc" where
  "echo_command argv cmd s =
     (if verbosity s \<noteq> 0 \<or> environ (os s) ''PMASH_VERBOSITY'' \<noteq> None
      then syscall (alloc_ok (''set -x; '' @ cmd)) ''asprintf()''
             (eputs (''++ '' @ echo_args argv @ [CHR 0x0A]) s)
      else (Inr cmd, s))"

text \<open>
  \<open>system(cmdstr)\<close>: the command is any transformer of the operating system that also
  yields the value \<open>system\<close> returns. It runs as another process: the globals of
  pmash are out of its reach.
\<close>

definition run_system :: "(string \<Rightarrow> world \<Rightarrow> int \<times> world) \<Rightarrow> string \<Rightarrow> int proc" where
  "run_system command cmd s =
     (case command cmd (os s) of
        (status, w) \<Rightarrow> (Inr status, s\<lparr>os := log (EvSystem cmd) w\<rparr>))"

definition classify :: "unit proc" where
  "classify s = (Inr (), twalk (tree2 s) post_walk s)"

text \<open>Lines 342 to 349: \<open>fclose\<close>, then the removal of an empty output file.\<close>

definition finish :: "string option \<Rightarrow> unit proc" where
  "finish out =
     (case out of
        None \<Rightarrow> return ()
      | Some name \<Rightarrow>
          andthen (\<lambda>s. (Inr (), fflush_fp s)) (\<lambda>_.
          andthen (call (sys_stat name)) (\<lambda>stats.
            if stats \<noteq> None \<and> st_size (the stats) = 0
            then syscall (sys_unlink name) name
            else return ())))"

definition exit_main :: "int \<Rightarrow> int proc" where
  "exit_main rc s = (Inr rc, fflush_fp s)"

text \<open>Everything \<open>main\<close> does after \<open>system\<close> has returned \<open>status\<close>.\<close>

definition after_command :: "settings \<Rightarrow> int \<Rightarrow> int proc" where
  "after_command st status =
     (let rc = (if status \<noteq> 0 then EXIT_FAILURE else EXIT_SUCCESS)
      in andthen (for_each (strtok_all (watchdirs st) CHR '','') post_dir) (\<lambda>_.
         andthen classify (\<lambda>_.
         andthen (finish (outfile st)) (\<lambda>_.
         exit_main rc))))"

text \<open>
  \<open>main\<close>: \<open>opts\<close> is what \<open>getopt_long\<close> returns call by call, \<open>argv0\<close> and \<open>args\<close>
  are the argument vector, \<open>command\<close> is the meaning of command strings.
\<close>

definition main ::
  "(string \<Rightarrow> world \<Rightarrow> int \<times> world) \<Rightarrow> opt list \<Rightarrow> string \<Rightarrow> string list \<Rightarrow> int proc" where
  "main command opts argv0 args s0 =
     andthen (getopt_loop opts \<lparr>cmdstr = None, outfile = None, watchdirs = ''.''\<rparr>) (\<lambda>st.
       case cmdstr st of
         None \<Rightarrow> usage EXIT_FAILURE
       | Some cmd \<Rightarrow>
           andthen (open_output (outfile st)) (\<lambda>_.
           andthen (for_each (strtok_all (watchdirs st) CHR '','') pre_dir) (\<lambda>_.
           andthen (echo_command (argv0 # args) cmd) (\<lambda>cmd'.
           andthen (run_system command cmd') (\<lambda>status.
           after_command st status)))))
       (s0\<lparr>prog := after_last_slash argv0 argv0\<rparr>)"


section \<open>Derived notions used in the statements\<close>

text \<open>The text \<open>post_walk\<close> appends to \<open>fp\<close> for one entry at verbosity \<open>v\<close>.\<close>

definition entry_text :: "int \<Rightarrow> pathentry_s \<Rightarrow> string" where
  "entry_text v p =
     (if prereq_of p then path p @ (if v \<noteq> 0 then '' # '' @ TMFMT p else []) @ [CHR 0x0A]
      else if v \<noteq> 0 then ''## '' @ fmt_s24 (path p) @ '': '' @ TMFMT p @ [CHR 0x0A]
      else [])"

text \<open>The key order of the store, and what it means to be a search tree for it.\<close>

definition path_before :: "pathentry_s \<Rightarrow> pathentry_s \<Rightarrow> bool" where
  "path_before a b = (pathcmp a b < 0)"

definition search_tree :: "pathentry_s tree \<Rightarrow> bool" where
  "search_tree t = sorted_wrt path_before (inorder t)"

text \<open>The store after the walkers handed the entries \<open>es\<close> to \<open>tsearch\<close>, first to last.\<close>

definition insert_all :: "pathentry_s list \<Rightarrow> pathentry_s tree \<Rightarrow> pathentry_s tree" where
  "insert_all es t = foldl (\<lambda>t e. tsearch e t pathcmp) t es"

text \<open>
  Of the entries handed to \<open>tsearch\<close>, those that were the first with their path:
  \<open>seen\<close> lists the paths met so far.
\<close>

fun keep_first :: "string list \<Rightarrow> pathentry_s list \<Rightarrow> pathentry_s list" where
  "keep_first seen [] = []"
| "keep_first seen (e # es) =
     (if path e \<in> set seen then keep_first seen es else e # keep_first (path e # seen) es)"

definition first_by_path :: "pathentry_s list \<Rightarrow> pathentry_s list" where
  "first_by_path es = keep_first [] es"

text \<open>
  An action for \<open>twalk\<close> that records the items at exactly the visits on which
  \<open>post_walk\<close> acts (\<open>postorder\<close> and \<open>leaf\<close>).
\<close>

definition visit_log :: "'a \<Rightarrow> VISIT \<Rightarrow> nat \<Rightarrow> 'a list \<Rightarrow> 'a list" where
  "visit_log x which depth acc = (if which = postorder \<or> which = leaf then acc @ [x] else acc)"


text \<open>A step that leaves the files, the buffer of \<open>fp\<close> and the pre-run store alone.\<close>

definition quiet_step :: "state \<Rightarrow> state \<Rightarrow> bool" where
  "quiet_step s s' =
     (files (os s') = files (os s) \<and> fp_buf s' = fp_buf s \<and> fp s' = fp s \<and>
      verbosity s' = verbosity s \<and> tree1 s' = tree1 s)"

text \<open>Every entry of \<open>tree2\<close> names a regular file that exists.\<close>

definition tree2_on_disk :: "state \<Rightarrow> bool" where
  "tree2_on_disk s = (\<forall>e \<in> set (inorder (tree2 s)). canon (path e) \<in> dom (files (os s)))"


text \<open>A step, or a library call, after which every file that existed still exists.\<close>

definition keeps_files :: "'a proc \<Rightarrow> bool" where
  "keeps_files m = (\<forall>s r s'. m s = (r, s') \<longrightarrow> dom (files (os s)) \<subseteq> dom (files (os s')))"

definition sys_keeps_files :: "(world \<Rightarrow> 'a option \<times> world) \<Rightarrow> bool" where
  "sys_keeps_files f = (\<forall>w x w'. f w = (x, w') \<longrightarrow> dom (files w) \<subseteq> dom (files w'))"

text \<open>The events that add or remove a directory entry.\<close>

fun creates_or_unlinks :: "event \<Rightarrow> bool" where
  "creates_or_unlinks (EvCreate p) = True"
| "creates_or_unlinks (EvUnlink p) = True"
| "creates_or_unlinks ev = False"


text \<open>Two runs that end in the same state and in the same fatal error, if in any.\<close>

definition same_outcome :: "(error + int) \<times> state \<Rightarrow> (error + int) \<times> state \<Rightarrow> bool" where
  "same_outcome r1 r2 = (snd r1 = snd r2 \<and> (\<forall>e. fst r1 = Inl e \<longleftrightarrow> fst r2 = Inl e))"


section \<open>Concrete inputs\<close>

definition ex_stat :: "int \<Rightarrow> int \<Rightarrow> int \<Rightarrow> int \<Rightarrow> stat" where
  "ex_stat a an m mn =
     \<lparr>st_atim = \<lparr>tv_sec = word_of_int a, tv_nsec = word_of_int an\<rparr>,
      st_mtim = \<lparr>tv_sec = word_of_int m, tv_nsec = word_of_int mn\<rparr>, st_size = 0\<rparr>"

text \<open>A directory \<open>d\<close> without files, process id 7, no faults, the clock at 1000.000000500.\<close>

definition ex_world :: world where
  "ex_world =
     \<lparr>files = Map.empty, dirs = {''d''}, listing = (\<lambda>r. None), fds = Map.empty, next_fd = 3,
      clock = \<lparr>tv_sec = 1000, tv_nsec = 500\<rparr>, noatime = False, faults = {}, ncalls = 0,
      pid = 7, environ = Map.empty, trace = [], stdout_txt = [], stderr_txt = []\<rparr>"

definition ex_state :: state where
  "ex_state =
     \<lparr>tree1 = Empty, tree2 = Empty, fp = Stdout, fp_buf = [], verbosity = 0,
      prog = ''pmash'', os = ex_world\<rparr>"

definition ex_inode :: "int \<Rightarrow> int \<Rightarrow> int \<Rightarrow> int \<Rightarrow> inode" where
  "ex_inode a an m mn =
     \<lparr>i_atim = \<lparr>tv_sec = word_of_int a, tv_nsec = word_of_int an\<rparr>,
      i_mtim = \<lparr>tv_sec = word_of_int m, tv_nsec = word_of_int mn\<rparr>, i_data = ''x''\<rparr>"

text \<open>The same with one file \<open>d/f\<close>, last written at 100.000000500 and read at 150.\<close>

definition ex_world_f :: world where
  "ex_world_f =
     ex_world\<lparr>files := [''d/f'' \<mapsto> ex_inode 150 0 100 500],
              listing := (\<lambda>r. if r = ''d'' then Some [''d'', ''d/f''] else None)\<rparr>"

definition ex_state_f :: state where
  "ex_state_f = ex_state\<lparr>os := ex_world_f\<rparr>"

text \<open>The fifth library call (the \<open>write\<close> of the probe) fails; reads leave atime alone.\<close>

definition ex_state_wfail :: state where
  "ex_state_wfail = ex_state\<lparr>os := ex_world\<lparr>faults := {4}\<rparr>\<rparr>"

definition ex_state_noatime :: state where
  "ex_state_noatime = ex_state\<lparr>os := ex_world\<lparr>noatime := True\<rparr>\<rparr>"

text \<open>
  A command that reads \<open>d/f\<close> (its atime becomes 200.0) and returns the given status;
  a command that does nothing and succeeds.
\<close>

definition ex_cmd :: "int \<Rightarrow> string \<Rightarrow> world \<Rightarrow> int \<times> world" where
  "ex_cmd status c w =
     (status,
      case files w ''d/f'' of
        None \<Rightarrow> w
      | Some ino \<Rightarrow> w\<lparr>files := (files w)(''d/f'' \<mapsto> ino\<lparr>i_atim := \<lparr>tv_sec = 200, tv_nsec = 0\<rparr>\<rparr>)\<rparr>)"

definition ex_true :: "string \<Rightarrow> world \<Rightarrow> int \<times> world" where
  "ex_true c w = (0, w)"

text \<open>
  Just before classification: the output file \<open>out\<close> is open and empty, and \<open>tree2\<close>
  holds one entry, a file that was written (not a prerequisite).
\<close>

definition ex_state_out :: "int \<Rightarrow> state" where
  "ex_state_out v =
     ex_state\<lparr>fp := Outfile ''out'', verbosity := v,
              tree2 := Node Empty (post_entry ''d/f'' (ex_stat 0 0 5 0)) Empty,
              os := ex_world\<lparr>files := [''out'' \<mapsto>
                      \<lparr>i_atim = clock ex_world, i_mtim = clock ex_world, i_data = []\<rparr>]\<rparr>\<rparr>"

text \<open>
  Just before the post-run walk: \<open>tree1\<close> holds \<open>d/f\<close> and \<open>d/gone\<close>, and only \<open>d/f\<close>
  is still on disk.
\<close>

definition ex_state_post :: state where
  "ex_state_post =
     ex_state_f\<lparr>tree1 := insert_all [pre_entry ''d/f'' (ex_stat 0 0 100 500),
                                      pre_entry ''d/gone'' (ex_stat 0 0 100 0)] Empty\<rparr>"

text \<open>An entry that was neither read nor written between the walks.\<close>

definition ex_unread :: "string \<Rightarrow> pathentry_s" where
  "ex_unread p =
     \<lparr>path = p,
      times1 = (\<lparr>tv_sec = 99, tv_nsec = 0\<rparr>, \<lparr>tv_sec = 100, tv_nsec = 5\<rparr>),
      times2 = (\<lparr>tv_sec = 99, tv_nsec = 0\<rparr>, \<lparr>tv_sec = 100, tv_nsec = 5\<rparr>)\<rparr>"

text \<open>An entry that was read and not written between the walks.\<close>

definition ex_read :: "string \<Rightarrow> pathentry_s" where
  "ex_read p =
     \<lparr>path = p,
      times1 = (\<lparr>tv_sec = 99, tv_nsec = 0\<rparr>, \<lparr>tv_sec = 100, tv_nsec = 5\<rparr>),
      times2 = (\<lparr>tv_sec = 200, tv_nsec = 0\<rparr>, \<lparr>tv_sec = 100, tv_nsec = 5\<rparr>)\<rparr>"


section \<open>The classifier\<close>

lemma post_walk_emits:
  "post_walk p which depth s =
     (if which = postorder \<or> which = leaf
      then s\<lparr>fp_buf := fp_buf s @ entry_text (verbosity s) p\<rparr> else s)"
  by (simp add: post_walk_def entry_text_def fputs_def fputc_def)

text \<open>
  C1 (amended). The verdict of \<open>post_walk\<close> is "prerequisite" exactly when none of the
  four clauses holds, taken in the order mtime seconds advanced, mtime nanoseconds
  advanced at equal seconds, atime seconds not past the forced atime, atime nanoseconds
  not past it at equal seconds. On the visits \<open>postorder\<close> and \<open>leaf\<close> a prerequisite
  gets one line starting with its path (followed by \<open> # \<close> and the timestamps when
  verbosity is non-zero); any other entry gets no output at verbosity zero and one
  diagnostic line \<open>## path: timestamps\<close> otherwise. The other visits write nothing.
\<close>

theorem C1_classifier_rule_and_output:
  "prereq_of p =
     (\<not> word_sless (tv_sec (snd (times1 p))) (tv_sec (snd (times2 p))) \<and>
      \<not> (tv_sec (snd (times2 p)) = tv_sec (snd (times1 p)) \<and>
         word_sless (tv_nsec (snd (times1 p))) (tv_nsec (snd (times2 p)))) \<and>
      \<not> word_sle (tv_sec (fst (times2 p))) (tv_sec (fst (times1 p))) \<and>
      \<not> (tv_sec (fst (times2 p)) = tv_sec (fst (times1 p)) \<and>
         word_sle (tv_nsec (fst (times2 p))) (tv_nsec (fst (times1 p)))))
   \<and> (which = postorder \<or> which = leaf \<longrightarrow>
        fp_buf (post_walk p which depth s) =
          fp_buf s @
          (if prereq_of p
           then path p @ (if verbosity s \<noteq> 0 then '' # '' @ TMFMT p else []) @ [CHR 0x0A]
           else if verbosity s \<noteq> 0
                then ''## '' @ fmt_s24 (path p) @ '': '' @ TMFMT p @ [CHR 0x0A]
                else []))
   \<and> (which = preorder \<or> which = endorder \<longrightarrow> post_walk p which depth s = s)"
  by (simp add: prereq_of_def post_walk_def fputs_def fputc_def)

theorem C1_witness:
  "prereq_of (post_entry ''a'' (ex_stat 7 0 (-3) 0)) \<and>
   fp_buf (post_walk (post_entry ''a'' (ex_stat 7 0 (-3) 0)) leaf 0 ex_state) = ''a'' @ [CHR 0x0A]"
proof -
  let ?e = "post_entry ''a'' (ex_stat 7 0 (-3) 0)"
  have a: "prereq_of ?e" by code_simp
  have b: "path ?e = ''a''" "verbosity ex_state = 0" "fp_buf ex_state = []" by code_simp+
  from C1_classifier_rule_and_output [of ?e leaf 0 ex_state] a b show ?thesis by simp
qed

text \<open>
  C1 as stated fails at verbosity 1: the entry \<open>a\<close> (mtime advanced from the sentinel
  to 5) is not a prerequisite, and its path is written to the sink all the same, inside
  a diagnostic line.
\<close>

theorem C1_counterexample:
  "\<not> prereq_of (post_entry ''a'' (ex_stat 0 0 5 0)) \<and>
   fp_buf (post_walk (post_entry ''a'' (ex_stat 0 0 5 0)) leaf 0 (ex_state\<lparr>verbosity := 1\<rparr>)) =
     ''## a                       : a1=-000000002.000000000 m1=-000000001.000000000 a2=0000000000.000000000 m2=0000000005.000000000'' @ [CHR 0x0A]"
  by code_simp


section \<open>Files first seen after the command\<close>

lemma sless_minus_one: "word_sle 0 (x :: 64 word) \<Longrightarrow> word_sless (- 1) x"
  by (simp add: word_sle_eq word_sless_alt)

text \<open>
  C3 (amended). For a path without an entry in \<open>tree1\<close> the post-run callback keeps the
  sentinel \<open>times1\<close>; the entry is a prerequisite exactly when its observed mtime is
  not later than the sentinel mtime \<open>(-1, 0)\<close> and its atime seconds exceed \<open>-2\<close>. So a
  new file whose mtime seconds are not negative is never a prerequisite.
\<close>

theorem C3_new_file_verdict:
  assumes "tfind (post_entry fpath sb) t1 pathcmp = None"
  shows "prereq_of (merge_pre t1 (post_entry fpath sb)) =
           (\<not> word_sless (- 1) (st_mtime sb) \<and>
            \<not> (st_mtime sb = - 1 \<and> word_sless 0 (tv_nsec (st_mtim sb))) \<and>
            word_sless (- 2) (st_atime sb))
       \<and> (word_sle 0 (st_mtime sb) \<longrightarrow> \<not> prereq_of (merge_pre t1 (post_entry fpath sb)))"
  using assms
  by (auto simp add: merge_pre_def prereq_of_def post_entry_def calloc_entry_def sless_minus_one)

theorem C3_witness:
  "tfind (post_entry ''new'' (ex_stat 7 0 5 0)) Empty pathcmp = None \<and>
   word_sle 0 (st_mtime (ex_stat 7 0 5 0)) \<and>
   \<not> prereq_of (merge_pre Empty (post_entry ''new'' (ex_stat 7 0 5 0)))"
proof -
  have a: "tfind (post_entry ''new'' (ex_stat 7 0 5 0)) Empty pathcmp = None" by simp
  have b: "word_sle 0 (st_mtime (ex_stat 7 0 5 0))" by code_simp
  from C3_new_file_verdict [OF a] a b show ?thesis by blast
qed

text \<open>
  C3 as stated fails for a new file with mtime \<open>(-1, 0)\<close>, one second before the epoch,
  and atime \<open>(0, 0)\<close>: no clause applies, the callback stores it with the sentinel and
  the classifier prints it as a prerequisite.
\<close>

theorem C3_counterexample:
  "tfind (post_entry ''new'' (ex_stat 0 0 (-1) 0)) (tree1 ex_state) pathcmp = None \<and>
   prereq_of (merge_pre (tree1 ex_state) (post_entry ''new'' (ex_stat 0 0 (-1) 0))) \<and>
   fp_buf (twalk (tree2 (snd (nftw_post_callback ''new'' (ex_stat 0 0 (-1) 0) FTW_F ex_state)))
             post_walk ex_state) = ''new'' @ [CHR 0x0A]"
  by code_simp


section \<open>The snapshot store\<close>

lemma strcmp_refl: "strcmp a a = 0"
  by (induction a) auto

lemma strcmp_eq0: "strcmp a b = 0 \<longleftrightarrow> a = b"
  by (induction a b rule: strcmp.induct) auto

lemma strcmp_swap: "strcmp a b < 0 \<longleftrightarrow> 0 < strcmp b a"
  by (induction a b rule: strcmp.induct) auto

lemma strcmp_trans: "strcmp a b < 0 \<Longrightarrow> strcmp b c < 0 \<Longrightarrow> strcmp a c < 0"
proof (induction a b arbitrary: c rule: strcmp.induct)
  case 1
  then show ?case by simp
next
  case (2 d ds)
  then show ?case by (cases c) auto
next
  case (3 x xs)
  then show ?case by simp
next
  case (4 x xs y ys)
  then show ?case by (cases c) (auto split: if_splits)
qed

lemma path_before_trans: "path_before a b \<Longrightarrow> path_before b c \<Longrightarrow> path_before a c"
  unfolding path_before_def pathcmp_def by (rule strcmp_trans)

lemma path_before_irrefl: "\<not> path_before a a"
  by (simp add: path_before_def pathcmp_def strcmp_refl)

lemma path_before_asym: "path_before a b \<Longrightarrow> \<not> path_before b a"
  using path_before_trans path_before_irrefl by blast

lemma pathcmp_cases: "pathcmp a b = 0 \<and> path a = path b \<or> path_before a b \<or> path_before b a"
  unfolding path_before_def pathcmp_def using strcmp_swap [of "path b" "path a"] strcmp_eq0 [of "path a" "path b"]
  by linarith

lemma pathcmp_0: "pathcmp a b = 0 \<longleftrightarrow> path a = path b"
  by (simp add: pathcmp_def strcmp_eq0)

lemma pathcmp_pos: "\<not> pathcmp a b = 0 \<Longrightarrow> \<not> pathcmp a b < 0 \<Longrightarrow> path_before b a"
  using pathcmp_cases [of a b] by (auto simp: path_before_def)

lemma tsearch_present: "tfind k t compar = Some x \<Longrightarrow> tsearch k t compar = t"
  by (induction t) (auto split: if_splits)

lemma tfind_tsearch_same:
  "compar k k = 0 \<Longrightarrow> tfind k t compar = None \<Longrightarrow> tfind k (tsearch k t compar) compar = Some k"
  by (induction t) (auto split: if_splits)

lemma set_tsearch:
  "set (inorder (tsearch k t compar)) =
     (if tfind k t compar = None then insert k (set (inorder t)) else set (inorder t))"
  by (induction t) (auto split: if_splits)

lemma tfind_in_set: "tfind k t pathcmp = Some x \<Longrightarrow> x \<in> set (inorder t) \<and> path x = path k"
  by (induction t) (auto split: if_splits simp: pathcmp_0)

lemma tfind_None_iff:
  "search_tree t \<Longrightarrow> tfind k t pathcmp = None \<longleftrightarrow> path k \<notin> path ` set (inorder t)"
proof (induction t)
  case Empty
  then show ?case by simp
next
  case (Node l x r)
  then have sl: "search_tree l" and sr: "search_tree r"
    and lx: "\<forall>y \<in> set (inorder l). path_before y x"
    and xr: "\<forall>y \<in> set (inorder r). path_before x y"
    by (auto simp: search_tree_def sorted_wrt_append)
  show ?case
  proof (cases "pathcmp k x = 0")
    case True
    then show ?thesis by (auto simp: pathcmp_0)
  next
    case ne: False
    show ?thesis
    proof (cases "pathcmp k x < 0")
      case True
      then have kx: "path_before k x" by (simp add: path_before_def)
      have "path k \<notin> path ` set (inorder r)"
      proof
        assume "path k \<in> path ` set (inorder r)"
        then obtain y where y: "y \<in> set (inorder r)" "path y = path k" by auto
        with xr have "path_before x y" by simp
        then have "path_before x k" using y by (simp add: path_before_def pathcmp_def)
        with kx show False using path_before_asym by blast
      qed
      moreover have "path k \<noteq> path x" using ne by (simp add: pathcmp_0)
      ultimately show ?thesis using True ne Node.IH(1) [OF sl] by auto
    next
      case False
      then have xk: "path_before x k" using ne pathcmp_pos by blast
      have "path k \<notin> path ` set (inorder l)"
      proof
        assume "path k \<in> path ` set (inorder l)"
        then obtain y where y: "y \<in> set (inorder l)" "path y = path k" by auto
        with lx have "path_before y x" by simp
        then have "path_before k x" using y by (simp add: path_before_def pathcmp_def)
        with xk show False using path_before_asym by blast
      qed
      moreover have "path k \<noteq> path x" using ne by (simp add: pathcmp_0)
      ultimately show ?thesis using False ne Node.IH(2) [OF sr] by auto
    qed
  qed
qed

lemma path_before_cong: "path a = path a' \<Longrightarrow> path b = path b' \<Longrightarrow> path_before a b = path_before a' b'"
  by (simp add: path_before_def pathcmp_def)

lemma search_tree_tsearch: "search_tree t \<Longrightarrow> search_tree (tsearch k t pathcmp)"
proof (induction t)
  case Empty
  then show ?case by (simp add: search_tree_def)
next
  case (Node l x r)
  then have sl: "search_tree l" and sr: "search_tree r"
    and lx: "\<forall>y \<in> set (inorder l). path_before y x"
    and xr: "\<forall>y \<in> set (inorder r). path_before x y"
    and lr: "\<forall>y \<in> set (inorder l). \<forall>z \<in> set (inorder r). path_before y z"
    by (auto simp: search_tree_def sorted_wrt_append)
  show ?case
  proof (cases "pathcmp k x = 0")
    case True
    then show ?thesis using Node.prems by simp
  next
    case ne: False
    show ?thesis
    proof (cases "pathcmp k x < 0")
      case True
      then have kx: "path_before k x" by (simp add: path_before_def)
      have "search_tree (tsearch k l pathcmp)" using Node.IH(1) sl by simp
      moreover have "\<forall>y \<in> set (inorder (tsearch k l pathcmp)). path_before y x"
        using lx kx by (auto simp: set_tsearch split: if_splits)
      moreover have "\<forall>y \<in> set (inorder (tsearch k l pathcmp)). \<forall>z \<in> set (inorder r). path_before y z"
        using lr xr kx path_before_trans by (auto simp: set_tsearch split: if_splits)
      ultimately show ?thesis using True ne sr xr
        by (auto simp: search_tree_def sorted_wrt_append)
    next
      case False
      then have xk: "path_before x k" using ne pathcmp_pos by blast
      have "search_tree (tsearch k r pathcmp)" using Node.IH(2) sr by simp
      moreover have "\<forall>y \<in> set (inorder (tsearch k r pathcmp)). path_before x y"
        using xr xk by (auto simp: set_tsearch split: if_splits)
      moreover have "\<forall>y \<in> set (inorder l). \<forall>z \<in> set (inorder (tsearch k r pathcmp)). path_before y z"
        using lr lx xk path_before_trans by (auto simp: set_tsearch split: if_splits)
      ultimately show ?thesis using False ne sl lx
        by (auto simp: search_tree_def sorted_wrt_append)
    qed
  qed
qed

lemma twalk_from_visits:
  "twalk_from t depth visit_log acc = acc @ inorder t"
  by (induction t arbitrary: depth acc) (auto simp: visit_log_def)

lemma twalk_from_post_walk:
  "twalk_from t depth post_walk s =
     s\<lparr>fp_buf := fp_buf s @ concat (map (entry_text (verbosity s)) (inorder t))\<rparr>"
  by (induction t arbitrary: depth s) (auto simp: post_walk_emits)

lemma sorted_wrt_set_unique:
  "sorted_wrt path_before xs \<Longrightarrow> sorted_wrt path_before ys \<Longrightarrow> set xs = set ys \<Longrightarrow> xs = ys"
proof (induction xs arbitrary: ys)
  case Nil
  then show ?case by simp
next
  case (Cons x xs)
  then obtain y ys' where ys: "ys = y # ys'" by (cases ys) auto
  have xall: "\<forall>z \<in> set xs. path_before x z" and yall: "\<forall>z \<in> set ys'. path_before y z"
    using Cons.prems ys by auto
  have "x = y"
  proof (rule ccontr)
    assume "x \<noteq> y"
    then have "x \<in> set ys'" "y \<in> set xs" using Cons.prems(3) ys by auto
    then have "path_before y x" "path_before x y" using xall yall by auto
    then show False using path_before_asym by blast
  qed
  moreover have "x \<notin> set xs" "y \<notin> set ys'" using xall yall path_before_irrefl by blast+
  ultimately have "set xs = set ys'" using Cons.prems(3) ys by auto
  then have "xs = ys'" using Cons.IH Cons.prems ys by simp
  with \<open>x = y\<close> ys show ?case by simp
qed

lemma search_tree_insert_all: "search_tree t \<Longrightarrow> search_tree (insert_all es t)"
  by (induction es arbitrary: t) (auto simp: insert_all_def search_tree_tsearch)

lemma set_insert_all:
  "search_tree t \<Longrightarrow> distinct (map path es) \<Longrightarrow> path ` set es \<inter> path ` set (inorder t) = {} \<Longrightarrow>
   set (inorder (insert_all es t)) = set (inorder t) \<union> set es"
proof (induction es arbitrary: t)
  case Nil
  then show ?case by (simp add: insert_all_def)
next
  case (Cons e es)
  have none: "tfind e t pathcmp = None" using Cons.prems by (simp add: tfind_None_iff)
  have st: "search_tree (tsearch e t pathcmp)" using Cons.prems(1) by (rule search_tree_tsearch)
  have s1: "set (inorder (tsearch e t pathcmp)) = insert e (set (inorder t))"
    using none by (simp add: set_tsearch)
  have "path ` set es \<inter> path ` set (inorder (tsearch e t pathcmp)) = {}"
    using Cons.prems s1 by auto
  then have "set (inorder (insert_all es (tsearch e t pathcmp))) = set (inorder (tsearch e t pathcmp)) \<union> set es"
    using Cons.IH [OF st] Cons.prems(2) by simp
  then show ?case using s1 by (simp add: insert_all_def)
qed

lemma classify_eq:
  "classify s =
     (Inr (), s\<lparr>fp_buf := fp_buf s @ concat (map (entry_text (verbosity s)) (inorder (tree2 s)))\<rparr>)"
  by (simp add: classify_def twalk_def twalk_from_post_walk)

lemma set_insert_all_keep_first:
  "search_tree t \<Longrightarrow> set seen = path ` set (inorder t) \<Longrightarrow>
   set (inorder (insert_all es t)) = set (inorder t) \<union> set (keep_first seen es)"
proof (induction es arbitrary: t seen)
  case Nil
  then show ?case by (simp add: insert_all_def)
next
  case (Cons e es)
  show ?case
  proof (cases "path e \<in> set seen")
    case True
    then have "tfind e t pathcmp \<noteq> None" using Cons.prems by (simp add: tfind_None_iff)
    then have "tsearch e t pathcmp = t" using tsearch_present by fastforce
    then have "insert_all (e # es) t = insert_all es t" by (simp add: insert_all_def)
    with Cons.IH [OF Cons.prems] True show ?thesis by simp
  next
    case False
    then have none: "tfind e t pathcmp = None" using Cons.prems by (simp add: tfind_None_iff)
    have st: "search_tree (tsearch e t pathcmp)" using Cons.prems(1) by (rule search_tree_tsearch)
    have s1: "set (inorder (tsearch e t pathcmp)) = insert e (set (inorder t))"
      using none by (simp add: set_tsearch)
    have seen: "set (path e # seen) = path ` set (inorder (tsearch e t pathcmp))"
      using Cons.prems(2) s1 by simp
    have "insert_all (e # es) t = insert_all es (tsearch e t pathcmp)" by (simp add: insert_all_def)
    with Cons.IH [OF st seen] s1 False show ?thesis by simp
  qed
qed

lemma keep_first_distinct:
  "distinct (map path es) \<Longrightarrow> path ` set es \<inter> set seen = {} \<Longrightarrow> keep_first seen es = es"
  by (induction es arbitrary: seen) auto

text \<open>
  C9 (amended). The store keeps, for each path, the entry that was handed to \<open>tsearch\<close>
  first. The visits on which \<open>post_walk\<close> acts run through exactly these entries, in
  ascending \<open>strcmp\<close> order of their paths, and \<open>classify\<close> appends their texts to \<open>fp\<close>
  in that order. The sequence of visits depends only on the set of kept entries: it is
  the same for two insertion sequences that keep the same entries, and for any search
  tree holding them, whatever its shape. When the inserted entries have distinct paths
  every one of them is kept, so the output does not depend on the insertion order.
\<close>

theorem C9_sorted_visit_of_first_inserted:
  assumes "tree2 s = insert_all es Empty"
  shows "sorted_wrt (\<lambda>a b. strcmp (path a) (path b) < 0) (twalk (tree2 s) visit_log [])
       \<and> set (twalk (tree2 s) visit_log []) = set (first_by_path es)
       \<and> classify s =
           (Inr (), s\<lparr>fp_buf := fp_buf s @
              concat (map (entry_text (verbosity s)) (twalk (tree2 s) visit_log []))\<rparr>)
       \<and> (set (first_by_path es') = set (first_by_path es) \<longrightarrow>
            twalk (insert_all es' Empty) visit_log [] = twalk (tree2 s) visit_log [])
       \<and> (search_tree t \<and> set (twalk t visit_log []) = set (first_by_path es) \<longrightarrow>
            twalk t visit_log [] = twalk (tree2 s) visit_log [])
       \<and> (distinct (map path es) \<longrightarrow> first_by_path es = es)"
proof -
  have vis: "twalk u visit_log [] = inorder u" for u :: "pathentry_s tree"
    by (simp add: twalk_def twalk_from_visits)
  have pb: "path_before = (\<lambda>a b. strcmp (path a) (path b) < 0)"
    by (intro ext) (simp add: path_before_def pathcmp_def)
  have e0: "search_tree Empty" by (simp add: search_tree_def)
  have st: "search_tree (insert_all xs Empty)" for xs
    using e0 by (rule search_tree_insert_all)
  have sets: "set (inorder (insert_all xs Empty)) = set (first_by_path xs)" for xs
    using set_insert_all_keep_first [OF e0, of "[]" xs] by (simp add: first_by_path_def)
  have a: "sorted_wrt (\<lambda>a b. strcmp (path a) (path b) < 0) (twalk (tree2 s) visit_log [])"
    using st [of es] pb by (simp add: vis assms search_tree_def)
  have b: "set (twalk (tree2 s) visit_log []) = set (first_by_path es)"
    by (simp add: vis assms sets)
  have c: "classify s =
           (Inr (), s\<lparr>fp_buf := fp_buf s @
              concat (map (entry_text (verbosity s)) (twalk (tree2 s) visit_log []))\<rparr>)"
    by (simp add: classify_eq vis)
  have uniq: "inorder u = inorder (insert_all es Empty)"
    if "search_tree u" "set (inorder u) = set (first_by_path es)" for u
    using that st [of es] sets [of es] unfolding search_tree_def
    by (intro sorted_wrt_set_unique) simp_all
  have d: "set (first_by_path es') = set (first_by_path es) \<longrightarrow>
            twalk (insert_all es' Empty) visit_log [] = twalk (tree2 s) visit_log []"
    using uniq [OF st [of es']] sets [of es'] by (simp add: vis assms)
  have e: "search_tree t \<and> set (twalk t visit_log []) = set (first_by_path es) \<longrightarrow>
            twalk t visit_log [] = twalk (tree2 s) visit_log []"
    using uniq [of t] by (simp add: vis assms)
  have f: "distinct (map path es) \<longrightarrow> first_by_path es = es"
    by (simp add: first_by_path_def keep_first_distinct)
  from a b c d e f show ?thesis by blast
qed

theorem C9_witness:
  "tree2 (ex_state\<lparr>tree2 := insert_all [ex_read ''b'', ex_read ''a/x'', ex_read ''c''] Empty\<rparr>) =
     insert_all [ex_read ''b'', ex_read ''a/x'', ex_read ''c''] Empty \<and>
   twalk (insert_all [ex_read ''b'', ex_read ''a/x'', ex_read ''c''] Empty) visit_log [] =
     [ex_read ''a/x'', ex_read ''b'', ex_read ''c''] \<and>
   twalk (insert_all [ex_read ''c'', ex_read ''b'', ex_read ''a/x''] Empty) visit_log [] =
     [ex_read ''a/x'', ex_read ''b'', ex_read ''c''] \<and>
   fp_buf (snd (classify
       (ex_state\<lparr>tree2 := insert_all [ex_read ''b'', ex_read ''a/x'', ex_read ''c''] Empty\<rparr>))) =
     ''a/x'' @ [CHR 0x0A] @ ''b'' @ [CHR 0x0A] @ ''c'' @ [CHR 0x0A]"
proof -
  let ?es = "[ex_read ''b'', ex_read ''a/x'', ex_read ''c'']"
  let ?es' = "[ex_read ''c'', ex_read ''b'', ex_read ''a/x'']"
  let ?s = "ex_state\<lparr>tree2 := insert_all ?es Empty\<rparr>"
  have h: "tree2 ?s = insert_all ?es Empty" by simp
  note T = C9_sorted_visit_of_first_inserted [OF h, of ?es' Empty]
  have d: "distinct (map path ?es)" "distinct (map path ?es')" by (simp_all add: ex_read_def)
  have f: "first_by_path ?es = ?es" using T d by blast
  have f': "first_by_path ?es' = ?es'" by code_simp
  have "set ?es' = set ?es" by auto
  with f f' have "set (first_by_path ?es') = set (first_by_path ?es)" by simp
  with T have same: "twalk (insert_all ?es' Empty) visit_log [] = twalk (tree2 ?s) visit_log []"
    by blast
  have v: "twalk (insert_all ?es Empty) visit_log [] = [ex_read ''a/x'', ex_read ''b'', ex_read ''c'']"
    by code_simp
  from T have "classify ?s = (Inr (), ?s\<lparr>fp_buf := fp_buf ?s @
              concat (map (entry_text (verbosity ?s)) (twalk (tree2 ?s) visit_log []))\<rparr>)" by blast
  then have "fp_buf (snd (classify ?s)) =
      fp_buf ?s @ concat (map (entry_text (verbosity ?s)) [ex_read ''a/x'', ex_read ''b'', ex_read ''c''])"
    using v by simp
  moreover have "fp_buf ?s @ concat (map (entry_text (verbosity ?s)) [ex_read ''a/x'', ex_read ''b'', ex_read ''c'']) =
     ''a/x'' @ [CHR 0x0A] @ ''b'' @ [CHR 0x0A] @ ''c'' @ [CHR 0x0A]" by code_simp
  ultimately have o: "fp_buf (snd (classify ?s)) =
     ''a/x'' @ [CHR 0x0A] @ ''b'' @ [CHR 0x0A] @ ''c'' @ [CHR 0x0A]" by simp
  from h v same o show ?thesis by simp
qed

text \<open>
  C9 as stated fails when two inserted entries share a path: of a prerequisite and a
  non-prerequisite with path \<open>a\<close> the first one inserted is kept, so one insertion order
  prints \<open>a\<close> and the other prints nothing.
\<close>

theorem C9_counterexample:
  "fp_buf (snd (classify (ex_state\<lparr>tree2 := insert_all [ex_read ''a'', ex_unread ''a''] Empty\<rparr>))) =
     ''a'' @ [CHR 0x0A] \<and>
   fp_buf (snd (classify (ex_state\<lparr>tree2 := insert_all [ex_unread ''a'', ex_read ''a''] Empty\<rparr>))) = []"
  by code_simp

section \<open>Running the process: success and failure of a step\<close>

lemma andthen_Inr:
  "(andthen m k s = (Inr r, s')) = (\<exists>v s1. m s = (Inr v, s1) \<and> k v s1 = (Inr r, s'))"
  by (auto simp: andthen_def split: prod.splits sum.splits)

lemma andthen_Inl:
  "(andthen m k s = (Inl e, s')) =
     (m s = (Inl e, s') \<or> (\<exists>v s1. m s = (Inr v, s1) \<and> k v s1 = (Inl e, s')))"
  by (auto simp: andthen_def split: prod.splits sum.splits)

lemma return_eq: "(return v s = (r, s')) = (r = Inr v \<and> s' = s)"
  by (auto simp: return_def)

lemma insist_Inr: "(insist b t s = (Inr u, s')) = (b \<and> s' = s)"
  by (auto simp: insist_def exit_with_def)

lemma insist_Inl:
  "(insist b t s = (Inl e, s')) =
     (\<not> b \<and> e = Insist t \<and>
      s' = fflush_fp (eputs (prog s @ '': Error: '' @ t @ '': strerror(errno)'' @ [CHR 0x0A]) s))"
  by (auto simp: insist_def exit_with_def)

lemma syscall_Inr:
  "(syscall f t s = (Inr v, s')) = (\<exists>w. f (os s) = (Some v, w) \<and> s' = s\<lparr>os := w\<rparr>)"
  by (auto simp: syscall_def call_def andthen_Inr insist_Inr return_eq split: prod.splits)

lemma syscall_Inl:
  "(syscall f t s = (Inl e, s')) =
     (\<exists>w. f (os s) = (None, w) \<and> e = Insist t \<and>
          s' = fflush_fp (eputs (prog s @ '': Error: '' @ t @ '': strerror(errno)'' @ [CHR 0x0A])
                 (s\<lparr>os := w\<rparr>)))"
  by (auto simp: syscall_def call_def andthen_Inl insist_Inl return_eq split: prod.splits)

lemma canon_skip_dot_slash: "canon (skip_dot_slash p) = canon p"
  by (auto simp: skip_dot_slash_def split: list.splits)

lemma alloc_ok_Some:
  "(alloc_ok v w = (Some x, w')) = (ncalls w \<notin> faults w \<and> x = v \<and> w' = w\<lparr>ncalls := Suc (ncalls w)\<rparr>)"
  by (auto simp: alloc_ok_def tick_def)

lemma sys_utimensat_Some:
  "(sys_utimensat p ts w = (Some u, w')) =
     (ncalls w \<notin> faults w \<and>
      (\<exists>ino. files w (canon p) = Some ino \<and>
             w' = set_times (canon p) ts ino (w\<lparr>ncalls := Suc (ncalls w)\<rparr>)))"
  by (auto simp: sys_utimensat_def tick_def Let_def split: option.splits)

lemma tfind_path_cong: "path k = path k' \<Longrightarrow> tfind k t pathcmp = tfind k' t pathcmp"
  by (induction t) (auto simp: pathcmp_def)

lemma tsearch_pre_Inr:
  "tsearch_pre p s = (Inr u, s') \<Longrightarrow>
     tree1 s' = tsearch p (tree1 s) pathcmp \<and> files (os s') = files (os s)"
  by (auto simp: tsearch_pre_def insist_Inr andthen_Inr syscall_Inr alloc_ok_Some tsearch_present
           split: option.splits)

lemma tsearch_pre_found:
  "tfind p (tree1 s) pathcmp = Some e \<Longrightarrow> tsearch_pre p s = (Inr (), s)"
  by (simp add: tsearch_pre_def insist_def)

lemma fflush_fp_globals [simp]:
  "tree1 (fflush_fp s) = tree1 s" "tree2 (fflush_fp s) = tree2 s"
  "verbosity (fflush_fp s) = verbosity s" "fp (fflush_fp s) = fp s" "prog (fflush_fp s) = prog s"
  by (auto simp: fflush_fp_def log_def split: stream.splits option.splits)

lemma eputs_globals [simp]:
  "tree1 (eputs m s) = tree1 s" "tree2 (eputs m s) = tree2 s"
  "verbosity (eputs m s) = verbosity s" "fp (eputs m s) = fp s" "fp_buf (eputs m s) = fp_buf s"
  "files (os (eputs m s)) = files (os s)" "prog (eputs m s) = prog s"
  by (auto simp: eputs_def)

lemma pre_callback_tree1:
  assumes "tfind (pre_entry (skip_dot_slash fpath) sb) (tree1 s) pathcmp = Some e"
    and "nftw_pre_callback fpath sb tflag s = (r, s')"
  shows "tree1 s' = tree1 s"
  using assms
  by (cases r)
     (auto simp: nftw_pre_callback_def Let_def return_eq andthen_Inr andthen_Inl syscall_Inr
                 syscall_Inl tsearch_pre_found split: if_splits)

lemma nsec_not_special:
  "unat (n :: 64 word) < 1000000000 \<Longrightarrow> n \<noteq> UTIME_NOW \<and> n \<noteq> UTIME_OMIT"
  by (auto simp: UTIME_NOW_def UTIME_OMIT_def)


section \<open>The pre-run walker\<close>

text \<open>
  C4 (amended). For a regular file that is not excluded, the pre-run callback records
  the forced atime (mtime seconds minus one, nanoseconds \<open>0\<close>) together with the file's
  mtime, and \<open>utimensat\<close> stores exactly this pair in the file: the atime becomes the
  forced atime, the mtime keeps its value. When the store had no entry for the path, it
  now holds the recorded entry.
\<close>

theorem C4_forced_atime:
  assumes isfile: "files (os s) (canon fpath) = Some ino"
      and nsec: "unat (tv_nsec (i_mtim ino)) < 1000000000"
      and incl: "\<not> excluded fpath"
      and run: "nftw_pre_callback fpath (stat_of ino) FTW_F s = (Inr r, s')"
  shows "times1 (pre_entry (skip_dot_slash fpath) (stat_of ino)) =
           (\<lparr>tv_sec = tv_sec (i_mtim ino) - 1, tv_nsec = 0\<rparr>, i_mtim ino)
       \<and> files (os s') (canon fpath) =
           Some (ino\<lparr>i_atim := \<lparr>tv_sec = tv_sec (i_mtim ino) - 1, tv_nsec = 0\<rparr>\<rparr>)
       \<and> (tfind (pre_entry (skip_dot_slash fpath) (stat_of ino)) (tree1 s) pathcmp = None \<longrightarrow>
            tfind (pre_entry (skip_dot_slash fpath) (stat_of ino)) (tree1 s') pathcmp =
              Some (pre_entry (skip_dot_slash fpath) (stat_of ino)))"
proof -
  let ?p = "pre_entry (skip_dot_slash fpath) (stat_of ino)"
  have t1: "times1 ?p = (\<lparr>tv_sec = tv_sec (i_mtim ino) - 1, tv_nsec = 0\<rparr>, i_mtim ino)"
    by (simp add: pre_entry_def calloc_entry_def stat_of_def st_mtime_def)
  from run incl obtain w where
      ut: "sys_utimensat (skip_dot_slash fpath) (times1 ?p) (os s) = (Some (), w)"
    and ts: "tsearch_pre ?p (s\<lparr>os := w\<rparr>) = (Inr (), s')"
    by (auto simp: nftw_pre_callback_def Let_def andthen_Inr syscall_Inr return_eq)
  from ut isfile have w: "w = set_times (canon fpath) (times1 ?p) ino ((os s)\<lparr>ncalls := Suc (ncalls (os s))\<rparr>)"
    by (auto simp: sys_utimensat_Some canon_skip_dot_slash)
  from tsearch_pre_Inr [OF ts] have tr: "tree1 s' = tsearch ?p (tree1 s) pathcmp"
    and fl: "files (os s') = files w" by simp_all
  have a0: "new_time c (i_atim ino) \<lparr>tv_sec = tv_sec (i_mtim ino) - 1, tv_nsec = 0\<rparr> =
              \<lparr>tv_sec = tv_sec (i_mtim ino) - 1, tv_nsec = 0\<rparr>" for c
    by (simp add: new_time_def UTIME_NOW_def UTIME_OMIT_def)
  have m0: "new_time c (i_mtim ino) (i_mtim ino) = i_mtim ino" for c
    using nsec_not_special [OF nsec] by (simp add: new_time_def)
  have f2: "files (os s') (canon fpath) =
           Some (ino\<lparr>i_atim := \<lparr>tv_sec = tv_sec (i_mtim ino) - 1, tv_nsec = 0\<rparr>\<rparr>)"
    unfolding fl w t1 by (simp add: set_times_def log_def a0 m0)
  have f3: "tfind ?p (tree1 s) pathcmp = None \<longrightarrow> tfind ?p (tree1 s') pathcmp = Some ?p"
    unfolding tr by (simp add: tfind_tsearch_same pathcmp_def strcmp_refl)
  from t1 f2 f3 show ?thesis by blast
qed

theorem C4_witness:
  "files (os ex_state_f) (canon ''d/f'') = Some (ex_inode 150 0 100 500) \<and>
   unat (tv_nsec (i_mtim (ex_inode 150 0 100 500))) < 1000000000 \<and>
   \<not> excluded ''d/f'' \<and>
   fst (nftw_pre_callback ''d/f'' (stat_of (ex_inode 150 0 100 500)) FTW_F ex_state_f) = Inr 0 \<and>
   files (os (snd (nftw_pre_callback ''d/f'' (stat_of (ex_inode 150 0 100 500)) FTW_F ex_state_f)))
     (canon ''d/f'') =
     Some ((ex_inode 150 0 100 500)\<lparr>i_atim := \<lparr>tv_sec = tv_sec (i_mtim (ex_inode 150 0 100 500)) - 1, tv_nsec = 0\<rparr>\<rparr>)"
proof -
  let ?ino = "ex_inode 150 0 100 500"
  let ?x = "nftw_pre_callback ''d/f'' (stat_of ?ino) FTW_F ex_state_f"
  have a: "files (os ex_state_f) (canon ''d/f'') = Some ?ino"
    by (simp add: ex_state_f_def ex_state_def ex_world_f_def)
  have b: "unat (tv_nsec (i_mtim ?ino)) < 1000000000" by (simp add: ex_inode_def)
  have c: "\<not> excluded ''d/f''" by code_simp
  have d: "fst ?x = Inr 0" by code_simp
  then have e: "?x = (Inr 0, snd ?x)" by (simp add: prod_eq_iff)
  from C4_forced_atime [OF a b c e] a b c d show ?thesis by blast
qed

text \<open>
  C4 as stated fails for a file with mtime 100.000000500: the recorded forced atime is
  \<open>(99, 0)\<close>, not \<open>(99, 500)\<close>; the nanoseconds of the mtime are not carried over.
\<close>

theorem C4_counterexample:
  "map times1 (inorder (tree1 (snd (nftw_pre_callback ''d/f'' (stat_of (ex_inode 150 0 100 500)) FTW_F ex_state_f)))) =
     [(\<lparr>tv_sec = 99, tv_nsec = 0\<rparr>, \<lparr>tv_sec = 100, tv_nsec = 500\<rparr>)] \<and>
   \<lparr>tv_sec = 99, tv_nsec = 0\<rparr> \<noteq> \<lparr>tv_sec = 99, tv_nsec = (500 :: 64 word)\<rparr>"
  by code_simp

text \<open>
  C5 (amended). When two paths reported by the pre-run walks have the same normalized
  path, the earlier insertion wins: the second callback leaves \<open>tree1\<close> as it is, and
  the entry found under the path is the one recorded first.
\<close>

theorem C5_first_insertion_wins:
  assumes first: "nftw_pre_callback f1 sb1 FTW_F s = (Inr r1, s1)"
      and incl: "\<not> excluded f1"
      and absent: "tfind (pre_entry (skip_dot_slash f1) sb1) (tree1 s) pathcmp = None"
      and same: "skip_dot_slash f2 = skip_dot_slash f1"
      and second: "nftw_pre_callback f2 sb2 tflag s1 = (r2, s2)"
  shows "tree1 s2 = tree1 s1 \<and>
         tfind (pre_entry (skip_dot_slash f2) sb2) (tree1 s2) pathcmp =
           Some (pre_entry (skip_dot_slash f1) sb1)"
proof -
  let ?p1 = "pre_entry (skip_dot_slash f1) sb1"
  let ?p2 = "pre_entry (skip_dot_slash f2) sb2"
  from first incl obtain w where ts: "tsearch_pre ?p1 (s\<lparr>os := w\<rparr>) = (Inr (), s1)"
    by (auto simp: nftw_pre_callback_def Let_def andthen_Inr syscall_Inr return_eq)
  from tsearch_pre_Inr [OF ts] have tr: "tree1 s1 = tsearch ?p1 (tree1 s) pathcmp" by simp
  have "tfind ?p1 (tree1 s1) pathcmp = Some ?p1"
    unfolding tr using absent by (simp add: tfind_tsearch_same pathcmp_def strcmp_refl)
  moreover have "path ?p2 = path ?p1" using same by (simp add: pre_entry_def calloc_entry_def)
  ultimately have found: "tfind ?p2 (tree1 s1) pathcmp = Some ?p1"
    using tfind_path_cong by metis
  from pre_callback_tree1 [OF found second] have "tree1 s2 = tree1 s1" .
  with found show ?thesis by simp
qed


theorem C5_witness:
  "fst (nftw_pre_callback ''./d/f'' (stat_of (ex_inode 150 0 100 500)) FTW_F ex_state_f) = Inr 0 \<and>
   \<not> excluded ''./d/f'' \<and>
   tfind (pre_entry (skip_dot_slash ''./d/f'') (stat_of (ex_inode 150 0 100 500)))
     (tree1 ex_state_f) pathcmp = None \<and>
   skip_dot_slash ''d/f'' = skip_dot_slash ''./d/f'' \<and>
   tfind (pre_entry (skip_dot_slash ''d/f'') (ex_stat 0 0 200 7))
     (tree1 (snd (nftw_pre_callback ''d/f'' (ex_stat 0 0 200 7) FTW_F
        (snd (nftw_pre_callback ''./d/f'' (stat_of (ex_inode 150 0 100 500)) FTW_F ex_state_f)))))
     pathcmp =
     Some (pre_entry (skip_dot_slash ''./d/f'') (stat_of (ex_inode 150 0 100 500)))"
proof -
  let ?sb1 = "stat_of (ex_inode 150 0 100 500)"
  let ?x1 = "nftw_pre_callback ''./d/f'' ?sb1 FTW_F ex_state_f"
  let ?x2 = "nftw_pre_callback ''d/f'' (ex_stat 0 0 200 7) FTW_F (snd ?x1)"
  have a: "fst ?x1 = Inr 0" by code_simp
  then have a': "?x1 = (Inr 0, snd ?x1)" by (simp add: prod_eq_iff)
  have b: "\<not> excluded ''./d/f''" by code_simp
  have c: "tfind (pre_entry (skip_dot_slash ''./d/f'') ?sb1) (tree1 ex_state_f) pathcmp = None"
    by (simp add: ex_state_f_def ex_state_def)
  have d: "skip_dot_slash ''d/f'' = skip_dot_slash ''./d/f''" by (simp add: skip_dot_slash_def)
  have e: "?x2 = (fst ?x2, snd ?x2)" by simp
  from C5_first_insertion_wins [OF a' b c d e] a b c d show ?thesis by blast
qed

text \<open>
  C5 as stated fails when the file was touched between the two walks: \<open>./d/f\<close> is
  recorded with mtime 100.000000500, then \<open>d/f\<close> arrives with mtime 200.000000007; the
  store keeps the times recorded first, not those of the later insertion.
\<close>

theorem C5_counterexample:
  "map times1 (inorder (tree1 (snd (nftw_pre_callback ''d/f'' (ex_stat 0 0 200 7) FTW_F
        (snd (nftw_pre_callback ''./d/f'' (stat_of (ex_inode 150 0 100 500)) FTW_F ex_state_f)))))) =
     [(\<lparr>tv_sec = 99, tv_nsec = 0\<rparr>, \<lparr>tv_sec = 100, tv_nsec = 500\<rparr>)] \<and>
   times1 (pre_entry (skip_dot_slash ''d/f'') (ex_stat 0 0 200 7)) =
     (\<lparr>tv_sec = 199, tv_nsec = 0\<rparr>, \<lparr>tv_sec = 200, tv_nsec = 7\<rparr>)"
  by code_simp


section \<open>The timestamp probe\<close>

lemma parent_ok_ncalls [simp]: "parent_ok q (w\<lparr>ncalls := n\<rparr>) = parent_ok q w"
  by (simp add: parent_ok_def split: option.splits)

lemma sys_open_excl_Some:
  "O_CREAT \<in> fl \<Longrightarrow> O_EXCL \<in> fl \<Longrightarrow>
   (sys_open p fl w = (Some fd, w')) =
     (ncalls w \<notin> faults w \<and> canon p \<notin> dom (files w) \<and> canon p \<notin> dirs w \<and>
      parent_ok (canon p) w \<and> fd = next_fd w \<and>
      w' = w\<lparr>ncalls := Suc (ncalls w), fds := (fds w)(next_fd w \<mapsto> canon p),
             next_fd := Suc (next_fd w),
             files := (files w)(canon p \<mapsto> \<lparr>i_atim = clock w, i_mtim = clock w, i_data = []\<rparr>),
             trace := trace w @ [EvCreate (canon p)]\<rparr>)"
  by (auto simp: sys_open_def tick_def alloc_fd_def log_def Let_def)

lemma sys_open_rd_Some:
  "O_CREAT \<notin> fl \<Longrightarrow>
   (sys_open p fl w = (Some fd, w')) =
     (ncalls w \<notin> faults w \<and> (canon p \<in> dom (files w) \<or> canon p \<in> dirs w) \<and>
      fd = next_fd w \<and>
      w' = w\<lparr>ncalls := Suc (ncalls w), fds := (fds w)(next_fd w \<mapsto> canon p),
             next_fd := Suc (next_fd w), trace := trace w @ [EvOpen (canon p)]\<rparr>)"
  by (auto simp: sys_open_def tick_def alloc_fd_def log_def Let_def)

lemma sys_close_Some:
  "(sys_close fd w = (Some u, w')) =
     (ncalls w \<notin> faults w \<and>
      (\<exists>q. fds w fd = Some q \<and>
           w' = w\<lparr>ncalls := Suc (ncalls w), fds := (fds w)(fd := None),
                  trace := trace w @ [EvClose q]\<rparr>))"
  by (auto simp: sys_close_def tick_def log_def Let_def split: option.splits)

lemma sys_write_Some:
  "(sys_write fd buf w = (Some n, w')) =
     (ncalls w \<notin> faults w \<and> n = length buf \<and>
      (\<exists>q ino. fds w fd = Some q \<and> files w q = Some ino \<and>
           w' = w\<lparr>ncalls := Suc (ncalls w),
                  files := (files w)(q \<mapsto> ino\<lparr>i_data := i_data ino @ buf, i_mtim := clock w\<rparr>),
                  trace := trace w @ [EvWrite q buf]\<rparr>))"
  by (auto simp: sys_write_def tick_def log_def Let_def split: option.splits)

lemma sys_read_Some:
  "(sys_read fd n w = (Some d, w')) =
     (ncalls w \<notin> faults w \<and>
      (\<exists>q ino. fds w fd = Some q \<and> files w q = Some ino \<and> d = take n (i_data ino) \<and>
           w' = w\<lparr>ncalls := Suc (ncalls w),
                  files := (files w)(q \<mapsto> (if noatime w then ino else ino\<lparr>i_atim := clock w\<rparr>)),
                  trace := trace w @ [EvRead q]\<rparr>))"
  by (auto simp: sys_read_def tick_def log_def Let_def split: option.splits)

lemma sys_fstat_Some:
  "(sys_fstat fd w = (Some st, w')) =
     (ncalls w \<notin> faults w \<and>
      (\<exists>q ino. fds w fd = Some q \<and> files w q = Some ino \<and> st = stat_of ino \<and>
           w' = w\<lparr>ncalls := Suc (ncalls w), trace := trace w @ [EvStat q]\<rparr>))"
  by (auto simp: sys_fstat_def tick_def log_def Let_def split: option.splits)

lemma sys_stat_Some:
  "(sys_stat p w = (Some st, w')) =
     (ncalls w \<notin> faults w \<and>
      (\<exists>ino. files w (canon p) = Some ino \<and> st = stat_of ino \<and>
           w' = w\<lparr>ncalls := Suc (ncalls w), trace := trace w @ [EvStat (canon p)]\<rparr>))"
  by (auto simp: sys_stat_def tick_def log_def Let_def split: option.splits)

lemma sys_futimens_Some:
  "(sys_futimens fd ts w = (Some u, w')) =
     (ncalls w \<notin> faults w \<and>
      (\<exists>q ino. fds w fd = Some q \<and> files w q = Some ino \<and>
           w' = set_times q ts ino (w\<lparr>ncalls := Suc (ncalls w)\<rparr>)))"
  by (auto simp: sys_futimens_def tick_def Let_def split: option.splits)

lemma sys_unlink_Some:
  "(sys_unlink p w = (Some u, w')) =
     (ncalls w \<notin> faults w \<and> canon p \<in> dom (files w) \<and>
      w' = w\<lparr>ncalls := Suc (ncalls w), files := (files w)(canon p := None),
             trace := trace w @ [EvUnlink (canon p)]\<rparr>)"
  by (auto simp: sys_unlink_def tick_def log_def Let_def split: option.splits)

lemma canon_idem: "canon (canon p) = canon p"
  by (induction p rule: canon.induct) auto

lemma set_times_probe:
  "set_times q (probe_times st) ino w =
     w\<lparr>files := (files w)(q \<mapsto> ino\<lparr>i_atim := \<lparr>tv_sec = st_mtime st - 1, tv_nsec = 0\<rparr>\<rparr>),
       trace := trace w @ [EvSetTimes q (Some \<lparr>tv_sec = st_mtime st - 1, tv_nsec = 0\<rparr>) None]\<rparr>"
  by (simp add: set_times_def probe_times_def new_time_def time_arg_def log_def
                UTIME_NOW_def UTIME_OMIT_def)

lemma asprintf_tmp_Inr:
  "(asprintf_tmp dir s = (Inr v, s')) =
     (ncalls (os s) \<notin> faults (os s) \<and>
      v = dir @ ''/audit.'' @ fmt_ld 0 (scast (pid (os s))) @ ''.tmp'' \<and>
      s' = s\<lparr>os := (os s)\<lparr>ncalls := Suc (ncalls (os s))\<rparr>\<rparr>)"
  by (auto simp: asprintf_tmp_def syscall_Inr alloc_ok_Some)


lemma probe_check_dir_Inr:
  assumes "probe_check_dir dir s = (Inr u, s')"
  shows "trace (os s') = trace (os s) @ [EvOpen (canon dir), EvClose (canon dir)]
       \<and> files (os s') = files (os s) \<and> dirs (os s') = dirs (os s)
       \<and> clock (os s') = clock (os s) \<and> pid (os s') = pid (os s)"
  using assms unfolding probe_check_dir_def
  by (clarsimp simp add: andthen_Inr syscall_Inr sys_open_rd_Some sys_close_Some)

lemma probe_create_Inr:
  assumes "probe_create dir s = (Inr (tmp, fd), s')"
  shows "canon tmp = probe_tmp dir (os s)
       \<and> probe_tmp dir (os s) \<notin> dom (files (os s))
       \<and> trace (os s') = trace (os s) @ [EvCreate (probe_tmp dir (os s))]
       \<and> files (os s') = (files (os s))(probe_tmp dir (os s) \<mapsto>
            \<lparr>i_atim = clock (os s), i_mtim = clock (os s), i_data = []\<rparr>)
       \<and> fds (os s') fd = Some (probe_tmp dir (os s))
       \<and> clock (os s') = clock (os s)"
  using assms unfolding probe_create_def probe_tmp_def
  by (clarsimp simp add: andthen_Inr syscall_Inr asprintf_tmp_Inr sys_open_excl_Some return_eq)

lemma probe_create_exists:
  "probe_create dir s = (Inr (tmp, fd), s') \<Longrightarrow> canon tmp \<in> dom (files (os s'))"
  using probe_create_Inr [of dir s tmp fd s'] by simp

lemma probe_backdate_Inr:
  assumes "probe_backdate tmp fd s = (Inr u, s')"
    and "fds (os s) fd = Some q"
  shows "\<exists>ino. files (os s) q = Some ino
       \<and> trace (os s') = trace (os s) @
           [EvWrite q (''data'' @ [CHR 0x0A]), EvStat q,
            EvSetTimes q (Some \<lparr>tv_sec = tv_sec (clock (os s)) - 1, tv_nsec = 0\<rparr>) None,
            EvClose q]
       \<and> files (os s') = (files (os s))(q \<mapsto>
            ino\<lparr>i_data := i_data ino @ ''data'' @ [CHR 0x0A], i_mtim := clock (os s),
                i_atim := \<lparr>tv_sec = tv_sec (clock (os s)) - 1, tv_nsec = 0\<rparr>\<rparr>)"
  using assms unfolding probe_backdate_def
  by (clarsimp simp add: andthen_Inr syscall_Inr sys_write_Some sys_fstat_Some sys_futimens_Some
        sys_close_Some set_times_probe stat_of_def st_mtime_def)

lemma probe_readback_Inr:
  assumes "probe_readback tmp s = (Inr u, s')"
  shows "canon tmp \<in> dom (files (os s))
       \<and> trace (os s') = trace (os s) @ [EvOpen (canon tmp), EvRead (canon tmp), EvClose (canon tmp)]
       \<and> (\<exists>ino. files (os s') = (files (os s))(canon tmp \<mapsto> ino))"
  using assms unfolding probe_readback_def
  by (clarsimp simp add: andthen_Inr syscall_Inr sys_open_rd_Some sys_read_Some sys_close_Some)
     auto

lemma probe_finish_Inr:
  assumes "probe_finish tmp s = (Inr u, s')"
  shows "canon tmp \<in> dom (files (os s))
       \<and> trace (os s') = trace (os s) @ [EvStat (canon tmp), EvUnlink (canon tmp)]
       \<and> files (os s') = (files (os s))(canon tmp := None)"
  using assms unfolding probe_finish_def
  by (clarsimp simp add: andthen_Inr syscall_Inr sys_stat_Some sys_unlink_Some return_eq die_def
        exit_with_def split: if_splits)


lemma dom_files_fflush_fp [simp]: "dom (files (os (fflush_fp s))) = dom (files (os s))"
  by (auto simp: fflush_fp_def log_def split: stream.splits option.splits if_splits)

lemma keeps_files_andthen:
  "keeps_files m \<Longrightarrow> (\<And>v. keeps_files (k v)) \<Longrightarrow> keeps_files (andthen m k)"
  unfolding keeps_files_def andthen_def
  by (fastforce split: prod.splits sum.splits)

lemma keeps_files_syscall: "sys_keeps_files f \<Longrightarrow> keeps_files (syscall f t)"
  unfolding keeps_files_def sys_keeps_files_def
proof (intro allI impI)
  fix s r s'
  assume f: "\<forall>w x w'. f w = (x, w') \<longrightarrow> dom (files w) \<subseteq> dom (files w')"
    and run: "syscall f t s = (r, s')"
  obtain x w where fw: "f (os s) = (x, w)" by (cases "f (os s)")
  with f have sub: "dom (files (os s)) \<subseteq> dom (files w)" by blast
  show "dom (files (os s)) \<subseteq> dom (files (os s'))"
  proof (cases r)
    case (Inl e)
    with run fw have "s' = fflush_fp (eputs (prog s @ '': Error: '' @ t @ '': strerror(errno)'' @ [CHR 0x0A]) (s\<lparr>os := w\<rparr>))"
      by (auto simp: syscall_Inl)
    then show ?thesis using sub by simp
  next
    case (Inr v)
    with run fw have "s' = s\<lparr>os := w\<rparr>" by (auto simp: syscall_Inr)
    then show ?thesis using sub by simp
  qed
qed

lemma sys_keeps_files_write: "sys_keeps_files (sys_write fd buf)"
  by (auto simp: sys_keeps_files_def sys_write_def tick_def log_def Let_def split: option.splits if_splits)

lemma sys_keeps_files_fstat: "sys_keeps_files (sys_fstat fd)"
  by (auto simp: sys_keeps_files_def sys_fstat_def tick_def log_def Let_def split: option.splits if_splits)

lemma sys_keeps_files_futimens: "sys_keeps_files (sys_futimens fd ts)"
  by (auto simp: sys_keeps_files_def sys_futimens_def set_times_def tick_def log_def Let_def
           split: option.splits if_splits)

lemma sys_keeps_files_close: "sys_keeps_files (sys_close fd)"
  by (auto simp: sys_keeps_files_def sys_close_def tick_def log_def Let_def split: option.splits if_splits)

lemma sys_keeps_files_open: "sys_keeps_files (sys_open p fl)"
  by (auto simp: sys_keeps_files_def sys_open_def tick_def log_def alloc_fd_def Let_def
           split: option.splits if_splits)

lemma sys_keeps_files_read: "sys_keeps_files (sys_read fd n)"
  by (auto simp: sys_keeps_files_def sys_read_def tick_def log_def Let_def split: option.splits if_splits)

lemma sys_keeps_files_stat: "sys_keeps_files (sys_stat p)"
  by (auto simp: sys_keeps_files_def sys_stat_def tick_def log_def Let_def split: option.splits if_splits)

lemma keeps_files_backdate: "keeps_files (probe_backdate tmp fd)"
  unfolding probe_backdate_def
  by (intro keeps_files_andthen keeps_files_syscall sys_keeps_files_write sys_keeps_files_fstat
        sys_keeps_files_futimens sys_keeps_files_close)

lemma keeps_files_readback: "keeps_files (probe_readback tmp)"
  unfolding probe_readback_def
  by (intro keeps_files_andthen keeps_files_syscall sys_keeps_files_open sys_keeps_files_read
        sys_keeps_files_close)

lemma sys_unlink_None: "sys_unlink p w = (None, w') \<Longrightarrow> files w' = files w"
  by (auto simp: sys_unlink_def tick_def Let_def split: option.splits if_splits)

lemma probe_finish_Insist:
  assumes "probe_finish tmp s = (Inl (Insist t), s')"
  shows "dom (files (os s)) \<subseteq> dom (files (os s'))"
proof -
  have st: "keeps_files (syscall (sys_stat tmp) tmp)"
    by (intro keeps_files_syscall sys_keeps_files_stat)
  from assms consider
      (a) "syscall (sys_stat tmp) tmp s = (Inl (Insist t), s')"
    | (b) v s1 where "syscall (sys_stat tmp) tmp s = (Inr v, s1)"
          "syscall (sys_unlink tmp) tmp s1 = (Inl (Insist t), s')"
    unfolding probe_finish_def
    by (auto simp: andthen_Inl return_eq die_def exit_with_def split: if_splits)
  then show ?thesis
  proof cases
    case a
    with st show ?thesis unfolding keeps_files_def by blast
  next
    case b
    from b(1) st have 1: "dom (files (os s)) \<subseteq> dom (files (os s1))"
      unfolding keeps_files_def by blast
    from b(2) obtain w where "sys_unlink tmp (os s1) = (None, w)"
      and "s' = fflush_fp (eputs (prog s1 @ '': Error: '' @ tmp @ '': strerror(errno)'' @ [CHR 0x0A]) (s1\<lparr>os := w\<rparr>))"
      by (auto simp: syscall_Inl)
    then have "dom (files (os s')) = dom (files (os s1))"
      using sys_unlink_None by simp
    with 1 show ?thesis by simp
  qed
qed

lemma files_fflush_fp_None:
  "files (os s) q = None \<Longrightarrow> files (os (fflush_fp s)) q = None"
  using dom_files_fflush_fp [of s] by (metis domIff)

lemma probe_finish_Die:
  assumes "probe_finish tmp s = (Inl (Die m), s')"
  shows "canon tmp \<notin> dom (files (os s'))"
  using assms unfolding probe_finish_def
  by (auto simp: andthen_Inl andthen_Inr syscall_Inl syscall_Inr sys_stat_Some sys_unlink_Some
        return_eq die_def exit_with_def files_fflush_fp_None eputs_def split: if_splits)

lemma probe_use_Insist:
  assumes "probe_use tmp fd s = (Inl (Insist t), s')"
  shows "dom (files (os s)) \<subseteq> dom (files (os s'))"
proof -
  note kb = keeps_files_backdate [of tmp fd, unfolded keeps_files_def, rule_format]
  note kr = keeps_files_readback [of tmp, unfolded keeps_files_def, rule_format]
  from assms consider
      (a) "probe_backdate tmp fd s = (Inl (Insist t), s')"
    | (b) u s1 where "probe_backdate tmp fd s = (Inr u, s1)"
          "probe_readback tmp s1 = (Inl (Insist t), s')"
    | (c) u s1 u2 s2 where "probe_backdate tmp fd s = (Inr u, s1)"
          "probe_readback tmp s1 = (Inr u2, s2)" "probe_finish tmp s2 = (Inl (Insist t), s')"
    unfolding probe_use_def by (auto simp: andthen_Inl)
  then show ?thesis
  proof cases
    case a
    then show ?thesis by (rule kb)
  next
    case b
    from kb [OF b(1)] kr [OF b(2)] show ?thesis by blast
  next
    case c
    from kb [OF c(1)] kr [OF c(2)] probe_finish_Insist [OF c(3)] show ?thesis by blast
  qed
qed


lemma probe_Inr:
  assumes "probe dir s = (Inr u, s')"
  shows "trace (os s') = trace (os s) @
           [EvOpen (canon dir), EvClose (canon dir),
            EvCreate (probe_tmp dir (os s)),
            EvWrite (probe_tmp dir (os s)) (''data'' @ [CHR 0x0A]),
            EvStat (probe_tmp dir (os s)),
            EvSetTimes (probe_tmp dir (os s))
              (Some \<lparr>tv_sec = tv_sec (clock (os s)) - 1, tv_nsec = 0\<rparr>) None,
            EvClose (probe_tmp dir (os s)), EvOpen (probe_tmp dir (os s)),
            EvRead (probe_tmp dir (os s)), EvClose (probe_tmp dir (os s)),
            EvStat (probe_tmp dir (os s)), EvUnlink (probe_tmp dir (os s))]
    \<and> probe_tmp dir (os s) \<notin> dom (files (os s))
    \<and> files (os s') = files (os s)"
proof -
  from assms obtain u1 s1 c s2 where c1: "probe_check_dir dir s = (Inr u1, s1)"
    and c2: "probe_create dir s1 = (Inr c, s2)"
    and c3: "probe_use (fst c) (snd c) s2 = (Inr u, s')"
    unfolding probe_def by (auto simp: andthen_Inr)
  obtain tmp fd where c: "c = (tmp, fd)" by (cases c)
  from c3 obtain u3 s3 u4 s4 where b: "probe_backdate tmp fd s2 = (Inr u3, s3)"
    and r: "probe_readback tmp s3 = (Inr u4, s4)"
    and f: "probe_finish tmp s4 = (Inr u, s')"
    unfolding probe_use_def c by (auto simp: andthen_Inr)
  note L1 = probe_check_dir_Inr [OF c1]
  from L1 have T: "probe_tmp dir (os s1) = probe_tmp dir (os s)" by (simp add: probe_tmp_def)
  from probe_create_Inr [OF c2 [unfolded c]]
  have ct1: "canon tmp = probe_tmp dir (os s1)"
    and L2: "probe_tmp dir (os s1) \<notin> dom (files (os s1))"
      "trace (os s2) = trace (os s1) @ [EvCreate (probe_tmp dir (os s1))]"
      "files (os s2) = (files (os s1))(probe_tmp dir (os s1) \<mapsto>
            \<lparr>i_atim = clock (os s1), i_mtim = clock (os s1), i_data = []\<rparr>)"
      "clock (os s2) = clock (os s1)"
    and fd: "fds (os s2) fd = Some (probe_tmp dir (os s1))"
    by blast+
  from probe_backdate_Inr [OF b fd] obtain ino where
    L3: "trace (os s3) = trace (os s2) @
           [EvWrite (probe_tmp dir (os s1)) (''data'' @ [CHR 0x0A]), EvStat (probe_tmp dir (os s1)),
            EvSetTimes (probe_tmp dir (os s1)) (Some \<lparr>tv_sec = tv_sec (clock (os s2)) - 1, tv_nsec = 0\<rparr>) None,
            EvClose (probe_tmp dir (os s1))]"
    and F3: "files (os s3) = (files (os s2))(probe_tmp dir (os s1) \<mapsto>
            ino\<lparr>i_data := i_data ino @ ''data'' @ [CHR 0x0A], i_mtim := clock (os s2),
                i_atim := \<lparr>tv_sec = tv_sec (clock (os s2)) - 1, tv_nsec = 0\<rparr>\<rparr>)"
    by blast
  from probe_readback_Inr [OF r] obtain ino' where
    L4: "trace (os s4) = trace (os s3) @ [EvOpen (canon tmp), EvRead (canon tmp), EvClose (canon tmp)]"
    and F4: "files (os s4) = (files (os s3))(canon tmp \<mapsto> ino')"
    by blast
  note L5 = probe_finish_Inr [OF f]
  have ct: "canon tmp = probe_tmp dir (os s)" using ct1 T by simp
  have absent: "probe_tmp dir (os s) \<notin> dom (files (os s))" using L1 L2 T by simp
  have clk: "clock (os s2) = clock (os s)" using L1 L2 by simp
  have tr: "trace (os s') = trace (os s) @
           [EvOpen (canon dir), EvClose (canon dir),
            EvCreate (probe_tmp dir (os s)),
            EvWrite (probe_tmp dir (os s)) (''data'' @ [CHR 0x0A]),
            EvStat (probe_tmp dir (os s)),
            EvSetTimes (probe_tmp dir (os s))
              (Some \<lparr>tv_sec = tv_sec (clock (os s)) - 1, tv_nsec = 0\<rparr>) None,
            EvClose (probe_tmp dir (os s)), EvOpen (probe_tmp dir (os s)),
            EvRead (probe_tmp dir (os s)), EvClose (probe_tmp dir (os s)),
            EvStat (probe_tmp dir (os s)), EvUnlink (probe_tmp dir (os s))]"
    using L1 L2 L3 L4 L5 T ct clk by simp
  have "files (os s') = (files (os s))(probe_tmp dir (os s) := None)"
    using L1 L2 F3 F4 L5 T ct by simp
  then have "files (os s') = files (os s)" using absent by (auto simp: fun_upd_idem_iff domIff)
  with tr absent show ?thesis by blast
qed

lemma probe_use_Die:
  assumes "probe_use tmp fd s = (Inl (Die m), s')"
  shows "canon tmp \<notin> dom (files (os s'))"
proof -
  have nb: "probe_backdate tmp fd s0 \<noteq> (Inl (Die m), s0')" for s0 s0'
    unfolding probe_backdate_def by (auto simp: andthen_Inl syscall_Inl)
  have nr: "probe_readback tmp s0 \<noteq> (Inl (Die m), s0')" for s0 s0'
    unfolding probe_readback_def by (auto simp: andthen_Inl syscall_Inl)
  from assms nb nr obtain s2 where "probe_finish tmp s2 = (Inl (Die m), s')"
    unfolding probe_use_def by (auto simp: andthen_Inl)
  then show ?thesis by (rule probe_finish_Die)
qed

text \<open>
  C2 (amended). A probe that runs to its end performs, in this order: open and close of
  the directory; exclusive creation of \<open>dir/audit.<pid>.tmp\<close>, which did not exist;
  a write of the payload \<open>data\<close> and a newline; \<open>fstat\<close>; a timestamp write that sets the
  file's atime to one second before its mtime (nanoseconds 0) and leaves the mtime
  alone; close; open for reading; read; close; \<open>stat\<close>; \<open>unlink\<close>. Afterwards the files
  are what they were before.
\<close>

theorem C2_probe_steps:
  assumes "probe dir s = (Inr u, s')"
  shows "trace (os s') = trace (os s) @
           [EvOpen (canon dir), EvClose (canon dir),
            EvCreate (probe_tmp dir (os s)),
            EvWrite (probe_tmp dir (os s)) (''data'' @ [CHR 0x0A]),
            EvStat (probe_tmp dir (os s)),
            EvSetTimes (probe_tmp dir (os s))
              (Some \<lparr>tv_sec = tv_sec (clock (os s)) - 1, tv_nsec = 0\<rparr>) None,
            EvClose (probe_tmp dir (os s)), EvOpen (probe_tmp dir (os s)),
            EvRead (probe_tmp dir (os s)), EvClose (probe_tmp dir (os s)),
            EvStat (probe_tmp dir (os s)), EvUnlink (probe_tmp dir (os s))]
    \<and> probe_tmp dir (os s) \<notin> dom (files (os s))
    \<and> files (os s') = files (os s)"
  using assms by (rule probe_Inr)

theorem C2_witness:
  "fst (probe ''d'' ex_state) = Inr () \<and>
   trace (os (snd (probe ''d'' ex_state))) = trace (os ex_state) @
     [EvOpen (canon ''d''), EvClose (canon ''d''),
      EvCreate (probe_tmp ''d'' (os ex_state)),
      EvWrite (probe_tmp ''d'' (os ex_state)) (''data'' @ [CHR 0x0A]),
      EvStat (probe_tmp ''d'' (os ex_state)),
      EvSetTimes (probe_tmp ''d'' (os ex_state))
        (Some \<lparr>tv_sec = tv_sec (clock (os ex_state)) - 1, tv_nsec = 0\<rparr>) None,
      EvClose (probe_tmp ''d'' (os ex_state)), EvOpen (probe_tmp ''d'' (os ex_state)),
      EvRead (probe_tmp ''d'' (os ex_state)), EvClose (probe_tmp ''d'' (os ex_state)),
      EvStat (probe_tmp ''d'' (os ex_state)), EvUnlink (probe_tmp ''d'' (os ex_state))] \<and>
   probe_tmp ''d'' (os ex_state) = ''d/audit.7.tmp''"
proof -
  have a: "fst (probe ''d'' ex_state) = Inr ()" by code_simp
  then have b: "probe ''d'' ex_state = (Inr (), snd (probe ''d'' ex_state))"
    by (simp add: prod_eq_iff)
  have c: "probe_tmp ''d'' (os ex_state) = ''d/audit.7.tmp''" by code_simp
  from C2_probe_steps [OF b] a c show ?thesis by blast
qed

text \<open>
  C2 as stated fails: after the timestamp write of the probe the temporary file still
  has the mtime of its write (the clock, 1000.000000500); it is the atime that was set
  to one second before it.
\<close>

theorem C2_counterexample:
  "fst (probe_create ''d'' (snd (probe_check_dir ''d'' ex_state))) = Inr (''d/audit.7.tmp'', 4) \<and>
   fst (probe_backdate ''d/audit.7.tmp'' 4
          (snd (probe_create ''d'' (snd (probe_check_dir ''d'' ex_state))))) = Inr () \<and>
   files (os (snd (probe_backdate ''d/audit.7.tmp'' 4
          (snd (probe_create ''d'' (snd (probe_check_dir ''d'' ex_state))))))) ''d/audit.7.tmp'' =
     Some \<lparr>i_atim = \<lparr>tv_sec = 999, tv_nsec = 0\<rparr>, i_mtim = \<lparr>tv_sec = 1000, tv_nsec = 500\<rparr>,
           i_data = ''data'' @ [CHR 0x0A]\<rparr> \<and>
   clock (os ex_state) = \<lparr>tv_sec = 1000, tv_nsec = 500\<rparr>"
  by code_simp

text \<open>
  C6 (amended). A probe that runs to its end creates exactly one file and removes
  exactly that file. The file is also gone when the probe ends in \<open>atimes not updated
  here\<close>, since \<open>unlink\<close> precedes that verdict. There is no cleanup on the paths through
  \<open>insist\<close>: when a library call after the creation fails, the process exits with the
  temporary file still in the directory.
\<close>

theorem C6_temp_file_cleanup:
  "(probe dir s = (Inr u, s') \<longrightarrow>
      filter creates_or_unlinks (drop (length (trace (os s))) (trace (os s'))) =
        [EvCreate (probe_tmp dir (os s)), EvUnlink (probe_tmp dir (os s))] \<and>
      probe_tmp dir (os s) \<notin> dom (files (os s')))
   \<and> (probe_create dir s1 = (Inr (tmp, fd), s2) \<and> probe_use tmp fd s2 = (Inl (Die m), s3) \<longrightarrow>
        canon tmp \<notin> dom (files (os s3)))
   \<and> (probe_create dir s1 = (Inr (tmp, fd), s2) \<and> probe_use tmp fd s2 = (Inl (Insist t), s3) \<longrightarrow>
        canon tmp \<in> dom (files (os s3)))"
proof -
  have A: "filter creates_or_unlinks (drop (length (trace (os s))) (trace (os s'))) =
        [EvCreate (probe_tmp dir (os s)), EvUnlink (probe_tmp dir (os s))] \<and>
      probe_tmp dir (os s) \<notin> dom (files (os s'))"
    if "probe dir s = (Inr u, s')"
    using probe_Inr [OF that] by simp
  have B: "canon tmp \<notin> dom (files (os s3))"
    if "probe_create dir s1 = (Inr (tmp, fd), s2) \<and> probe_use tmp fd s2 = (Inl (Die m), s3)"
    using that probe_use_Die by blast
  have C: "canon tmp \<in> dom (files (os s3))"
    if h: "probe_create dir s1 = (Inr (tmp, fd), s2) \<and> probe_use tmp fd s2 = (Inl (Insist t), s3)"
  proof -
    from h have "canon tmp \<in> dom (files (os s2))" using probe_create_exists by blast
    with h show ?thesis using probe_use_Insist by blast
  qed
  from A B C show ?thesis by blast
qed

theorem C6_witness:
  "fst (probe ''d'' ex_state) = Inr () \<and>
   filter creates_or_unlinks (drop (length (trace (os ex_state))) (trace (os (snd (probe ''d'' ex_state))))) =
     [EvCreate (probe_tmp ''d'' (os ex_state)), EvUnlink (probe_tmp ''d'' (os ex_state))] \<and>
   fst (probe_create ''d'' (snd (probe_check_dir ''d'' ex_state_noatime))) = Inr (''d/audit.7.tmp'', 4) \<and>
   fst (probe_use ''d/audit.7.tmp'' 4 (snd (probe_create ''d'' (snd (probe_check_dir ''d'' ex_state_noatime)))))
     = Inl (Die ''atimes not updated here'') \<and>
   canon ''d/audit.7.tmp'' \<notin> dom (files (os (snd
     (probe_use ''d/audit.7.tmp'' 4 (snd (probe_create ''d'' (snd (probe_check_dir ''d'' ex_state_noatime)))))))) \<and>
   fst (probe_create ''d'' (snd (probe_check_dir ''d'' ex_state_wfail))) = Inr (''d/audit.7.tmp'', 4) \<and>
   fst (probe_use ''d/audit.7.tmp'' 4 (snd (probe_create ''d'' (snd (probe_check_dir ''d'' ex_state_wfail)))))
     = Inl (Insist ''d/audit.7.tmp'') \<and>
   canon ''d/audit.7.tmp'' \<in> dom (files (os (snd
     (probe_use ''d/audit.7.tmp'' 4 (snd (probe_create ''d'' (snd (probe_check_dir ''d'' ex_state_wfail))))))))"
proof -
  let ?t = "''d/audit.7.tmp''"
  let ?n1 = "snd (probe_check_dir ''d'' ex_state_noatime)"
  let ?n2 = "snd (probe_create ''d'' ?n1)"
  let ?w1 = "snd (probe_check_dir ''d'' ex_state_wfail)"
  let ?w2 = "snd (probe_create ''d'' ?w1)"
  have a: "fst (probe ''d'' ex_state) = Inr ()" by code_simp
  then have a': "probe ''d'' ex_state = (Inr (), snd (probe ''d'' ex_state))"
    by (simp add: prod_eq_iff)
  have b: "fst (probe_create ''d'' ?n1) = Inr (?t, 4)" by code_simp
  then have b': "probe_create ''d'' ?n1 = (Inr (?t, 4), ?n2)" by (simp add: prod_eq_iff)
  have c: "fst (probe_use ?t 4 ?n2) = Inl (Die ''atimes not updated here'')" by code_simp
  then have c': "probe_use ?t 4 ?n2 = (Inl (Die ''atimes not updated here''), snd (probe_use ?t 4 ?n2))"
    by (simp add: prod_eq_iff)
  have d: "fst (probe_create ''d'' ?w1) = Inr (?t, 4)" by code_simp
  then have d': "probe_create ''d'' ?w1 = (Inr (?t, 4), ?w2)" by (simp add: prod_eq_iff)
  have e: "fst (probe_use ?t 4 ?w2) = Inl (Insist ?t)" by code_simp
  then have e': "probe_use ?t 4 ?w2 = (Inl (Insist ?t), snd (probe_use ?t 4 ?w2))"
    by (simp add: prod_eq_iff)
  from C6_temp_file_cleanup [where dir = "''d''" and s = ex_state and u = "()"
        and s' = "snd (probe ''d'' ex_state)"] a'
  have 1: "filter creates_or_unlinks (drop (length (trace (os ex_state))) (trace (os (snd (probe ''d'' ex_state))))) =
     [EvCreate (probe_tmp ''d'' (os ex_state)), EvUnlink (probe_tmp ''d'' (os ex_state))]"
    by blast
  from C6_temp_file_cleanup [where dir = "''d''" and ?s1.0 = ?n1 and tmp = ?t and fd = 4
        and ?s2.0 = ?n2 and m = "''atimes not updated here''"
        and ?s3.0 = "snd (probe_use ?t 4 ?n2)"] b' c'
  have 2: "canon ?t \<notin> dom (files (os (snd (probe_use ?t 4 ?n2))))" by blast
  from C6_temp_file_cleanup [where dir = "''d''" and ?s1.0 = ?w1 and tmp = ?t and fd = 4
        and ?s2.0 = ?w2 and t = ?t and ?s3.0 = "snd (probe_use ?t 4 ?w2)"] d' e'
  have 3: "canon ?t \<in> dom (files (os (snd (probe_use ?t 4 ?w2))))" by blast
  from a b c d e 1 2 3 show ?thesis by blast
qed

text \<open>
  C6 as stated fails when the \<open>write\<close> of the probe fails: \<open>insist\<close> exits, no \<open>unlink\<close>
  was issued, and the empty temporary file stays.
\<close>

theorem C6_counterexample:
  "fst (probe ''d'' ex_state_wfail) = Inl (Insist ''d/audit.7.tmp'') \<and>
   trace (os (snd (probe ''d'' ex_state_wfail))) =
     [EvOpen ''d'', EvClose ''d'', EvCreate ''d/audit.7.tmp''] \<and>
   files (os (snd (probe ''d'' ex_state_wfail))) ''d/audit.7.tmp'' =
     Some \<lparr>i_atim = \<lparr>tv_sec = 1000, tv_nsec = 500\<rparr>, i_mtim = \<lparr>tv_sec = 1000, tv_nsec = 500\<rparr>,
           i_data = []\<rparr>"
  by code_simp


section \<open>The post-run walker\<close>

lemma quiet_step_refl [simp]: "quiet_step s s"
  by (simp add: quiet_step_def)

lemma quiet_step_trans: "quiet_step s s1 \<Longrightarrow> quiet_step s1 s2 \<Longrightarrow> quiet_step s s2"
  by (simp add: quiet_step_def)

lemma tsearch_post_Inr:
  "tsearch_post p s = (Inr u, s') \<Longrightarrow>
     tree2 s' = tsearch p (tree2 s) pathcmp \<and> quiet_step s s'"
  by (auto simp: tsearch_post_def insist_Inr andthen_Inr syscall_Inr alloc_ok_Some tsearch_present
                 quiet_step_def split: option.splits)

lemma path_merge_pre [simp]: "path (merge_pre t p) = path p"
  by (simp add: merge_pre_def split: option.splits)

lemma path_post_entry [simp]: "path (post_entry f sb) = f"
  by (simp add: post_entry_def calloc_entry_def)

lemma post_callback_Inr:
  assumes "nftw_post_callback f sb fl s = (Inr r, s')"
  shows "r = 0 \<and> quiet_step s s' \<and>
         (tree2 s' = tree2 s \<or>
          (fl = FTW_F \<and> (\<exists>e. path e = skip_dot_slash f \<and> tree2 s' = tsearch e (tree2 s) pathcmp)))"
proof (cases "fl \<noteq> FTW_F \<or> excluded f")
  case True
  with assms show ?thesis by (auto simp: nftw_post_callback_def return_eq split: if_splits)
next
  case False
  let ?e = "merge_pre (tree1 s) (post_entry (skip_dot_slash f) sb)"
  from False assms obtain u s1 where ts: "tsearch_post ?e s = (Inr u, s1)" and r: "r = 0" "s' = s1"
    by (auto simp: nftw_post_callback_def Let_def andthen_Inr return_eq)
  from tsearch_post_Inr [OF ts] r False show ?thesis
    by (intro conjI disjI2 exI [of _ ?e]) auto
qed

lemma tree2_on_disk_step:
  assumes "tree2_on_disk s" "quiet_step s s'"
    and "tree2 s' = tree2 s \<or> (\<exists>e. canon (path e) \<in> dom (files (os s)) \<and> tree2 s' = tsearch e (tree2 s) pathcmp)"
  shows "tree2_on_disk s'"
  using assms unfolding tree2_on_disk_def quiet_step_def
  by (auto simp: set_tsearch split: if_splits)

lemma nftw_visit_FTW_F: "snd (nftw_visit w name) = FTW_F \<Longrightarrow> canon name \<in> dom (files w)"
  by (auto simp: nftw_visit_def split: option.splits if_splits)

lemma nftw_each_post:
  "nftw_each names nftw_post_callback s = (Inr r, s') \<Longrightarrow> tree2_on_disk s \<Longrightarrow>
     tree2_on_disk s' \<and> quiet_step s s'"
proof (induction names arbitrary: s)
  case Nil
  then show ?case by simp
next
  case (Cons name names)
  let ?sb = "fst (nftw_visit (os s) name)" and ?fl = "snd (nftw_visit (os s) name)"
  from Cons.prems(1) obtain r1 s1 where
      cb: "nftw_post_callback name ?sb ?fl s = (Inr r1, s1)"
    and rest: "r1 \<noteq> 0 \<and> r = r1 \<and> s' = s1 \<or> r1 = 0 \<and> nftw_each names nftw_post_callback s1 = (Inr r, s')"
    by (auto split: prod.splits sum.splits if_splits)
  from post_callback_Inr [OF cb] have r1: "r1 = 0" and q: "quiet_step s s1"
    and t: "tree2 s1 = tree2 s \<or>
          (?fl = FTW_F \<and> (\<exists>e. path e = skip_dot_slash name \<and> tree2 s1 = tsearch e (tree2 s) pathcmp))"
    by blast+
  have "tree2 s1 = tree2 s \<or> (\<exists>e. canon (path e) \<in> dom (files (os s)) \<and> tree2 s1 = tsearch e (tree2 s) pathcmp)"
  proof (cases "tree2 s1 = tree2 s")
    case True
    then show ?thesis by simp
  next
    case False
    with t obtain e where fl: "?fl = FTW_F" and e: "path e = skip_dot_slash name"
      "tree2 s1 = tsearch e (tree2 s) pathcmp" by blast
    from nftw_visit_FTW_F [OF fl] e(1) have "canon (path e) \<in> dom (files (os s))"
      by (simp add: canon_skip_dot_slash)
    with e(2) show ?thesis by blast
  qed
  with Cons.prems(2) q have d1: "tree2_on_disk s1" by (rule tree2_on_disk_step)
  from rest r1 have "nftw_each names nftw_post_callback s1 = (Inr r, s')" by simp
  from Cons.IH [OF this d1] q show ?case using quiet_step_trans by blast
qed

lemma post_dir_Inr:
  assumes "post_dir dir s = (Inr u, s')" "tree2_on_disk s"
  shows "tree2_on_disk s' \<and> quiet_step s s'"
proof -
  from assms(1) obtain r where n: "nftw dir nftw_post_callback s = (Inr r, s')"
    by (auto simp: post_dir_def andthen_Inr insist_Inr)
  let ?s0 = "s\<lparr>os := (os s)\<lparr>ncalls := Suc (ncalls (os s))\<rparr>\<rparr>"
  have q0: "quiet_step s ?s0" and d0: "tree2_on_disk ?s0"
    using assms(2) by (simp_all add: quiet_step_def tree2_on_disk_def)
  from n consider (a) "s' = ?s0" | (b) names where "nftw_each names nftw_post_callback ?s0 = (Inr r, s')"
    by (auto simp: nftw_def tick_def split: if_splits option.splits)
  then show ?thesis
  proof cases
    case a
    with q0 d0 show ?thesis by simp
  next
    case b
    from nftw_each_post [OF b d0] q0 show ?thesis using quiet_step_trans by blast
  qed
qed

lemma for_each_post_dir:
  "for_each ds post_dir s = (Inr u, s') \<Longrightarrow> tree2_on_disk s \<Longrightarrow>
     tree2_on_disk s' \<and> quiet_step s s'"
proof (induction ds arbitrary: s)
  case Nil
  then show ?case by simp
next
  case (Cons d ds)
  from Cons.prems(1) obtain u1 s1 where a: "post_dir d s = (Inr u1, s1)"
    and b: "for_each ds post_dir s1 = (Inr u, s')"
    by (auto split: prod.splits sum.splits)
  from post_dir_Inr [OF a Cons.prems(2)] Cons.IH [OF b] show ?case
    using quiet_step_trans by blast
qed

text \<open>
  C10. Start the post-run walks with an empty \<open>tree2\<close> and let \<open>p\<close> be a path whose file
  does not exist (for instance because the command removed it), whether or not \<open>tree1\<close>
  holds an entry for it. When the walks complete, \<open>tree2\<close> has no entry with path \<open>p\<close>,
  and what the classification appends to \<open>fp\<close> is the text of the entries with other
  paths: no prerequisite line and no diagnostic line for \<open>p\<close>.
\<close>

theorem C10_absent_file_no_line:
  assumes "tree2 s = Empty"
    and "canon p \<notin> dom (files (os s))"
    and "andthen (for_each ds post_dir) (\<lambda>_. classify) s = (Inr u, s2)"
  shows "p \<notin> path ` set (inorder (tree2 s2)) \<and>
         fp_buf s2 = fp_buf s @
           concat (map (entry_text (verbosity s)) (filter (\<lambda>e. path e \<noteq> p) (inorder (tree2 s2))))"
proof -
  from assms(3) obtain u1 s1 where w: "for_each ds post_dir s = (Inr u1, s1)"
    and c: "classify s1 = (Inr u, s2)"
    by (auto simp: andthen_Inr)
  have "tree2_on_disk s" using assms(1) by (simp add: tree2_on_disk_def)
  from for_each_post_dir [OF w this] have d: "tree2_on_disk s1" and q: "quiet_step s s1" by blast+
  from c have s2: "s2 = s1\<lparr>fp_buf := fp_buf s1 @ concat (map (entry_text (verbosity s1)) (inorder (tree2 s1)))\<rparr>"
    by (simp add: classify_def twalk_def twalk_from_post_walk)
  have np: "\<forall>e \<in> set (inorder (tree2 s1)). path e \<noteq> p"
    using d q assms(2) by (auto simp: tree2_on_disk_def quiet_step_def)
  then have f: "filter (\<lambda>e. path e \<noteq> p) (inorder (tree2 s1)) = inorder (tree2 s1)" by simp
  from np have "p \<notin> path ` set (inorder (tree2 s1))" by auto
  with s2 f q show ?thesis by (simp add: quiet_step_def)
qed


theorem C10_witness:
  "tree2 ex_state_post = Empty \<and>
   tfind (calloc_entry ''d/gone'') (tree1 ex_state_post) pathcmp =
     Some (pre_entry ''d/gone'' (ex_stat 0 0 100 0)) \<and>
   canon ''d/gone'' \<notin> dom (files (os ex_state_post)) \<and>
   fst (andthen (for_each [''d''] post_dir) (\<lambda>_. classify) ex_state_post) = Inr () \<and>
   ''d/gone'' \<notin> path ` set (inorder (tree2 (snd
      (andthen (for_each [''d''] post_dir) (\<lambda>_. classify) ex_state_post)))) \<and>
   fp_buf (snd (andthen (for_each [''d''] post_dir) (\<lambda>_. classify) ex_state_post)) =
     ''d/f'' @ [CHR 0x0A]"
proof -
  let ?x = "andthen (for_each [''d''] post_dir) (\<lambda>_. classify) ex_state_post"
  have a: "tree2 ex_state_post = Empty"
    by (simp add: ex_state_post_def ex_state_f_def ex_state_def)
  have b: "canon ''d/gone'' \<notin> dom (files (os ex_state_post))"
    by (simp add: ex_state_post_def ex_state_f_def ex_state_def ex_world_f_def)
  have c: "fst ?x = Inr ()" by code_simp
  then have c': "?x = (Inr (), snd ?x)" by (simp add: prod_eq_iff)
  have d: "tfind (calloc_entry ''d/gone'') (tree1 ex_state_post) pathcmp =
     Some (pre_entry ''d/gone'' (ex_stat 0 0 100 0))" by code_simp
  have e: "fp_buf (snd ?x) = ''d/f'' @ [CHR 0x0A]" by code_simp
  from C10_absent_file_no_line [OF a b c'] a b c d e show ?thesis by blast
qed


section \<open>The command and the exit status\<close>

lemma same_outcome_refl [simp]: "same_outcome r r"
  by (simp add: same_outcome_def)

lemma same_outcome_andthen:
  "(\<And>v s1. same_outcome (k1 v s1) (k2 v s1)) \<Longrightarrow> same_outcome (andthen m k1 s) (andthen m k2 s)"
  by (auto simp: andthen_def split: prod.splits sum.splits)

lemma same_outcome_exit_main: "same_outcome (exit_main a s) (exit_main b s)"
  by (simp add: same_outcome_def exit_main_def)

lemma after_command_same: "same_outcome (after_command st a s) (after_command st b s)"
  unfolding after_command_def Let_def
  by (intro same_outcome_andthen same_outcome_exit_main)

lemma after_command_Inr:
  "after_command st status s = (Inr rc, s') \<Longrightarrow>
     rc = (if status \<noteq> 0 then EXIT_FAILURE else EXIT_SUCCESS)"
  by (auto simp: after_command_def Let_def andthen_Inr exit_main_def)

lemma run_then_same:
  assumes "\<And>c w. snd (cmd1 c w) = snd (cmd2 c w)"
  shows "same_outcome (andthen (run_system cmd1 c) (after_command st) s)
                      (andthen (run_system cmd2 c) (after_command st) s)"
proof -
  obtain a w1 where 1: "cmd1 c (os s) = (a, w1)" by (cases "cmd1 c (os s)")
  obtain b w2 where 2: "cmd2 c (os s) = (b, w2)" by (cases "cmd2 c (os s)")
  from assms [of c "os s"] 1 2 have "w1 = w2" by simp
  with 1 2 show ?thesis
    by (simp add: andthen_def run_system_def after_command_same)
qed

lemma main_same:
  assumes "\<And>c w. snd (cmd1 c w) = snd (cmd2 c w)"
  shows "same_outcome (main cmd1 opts a0 as s) (main cmd2 opts a0 as s)"
  unfolding main_def
proof (rule same_outcome_andthen)
  fix st s1
  show "same_outcome
          ((case cmdstr st of None \<Rightarrow> usage EXIT_FAILURE
            | Some cmd \<Rightarrow>
                andthen (open_output (outfile st)) (\<lambda>_.
                andthen (for_each (strtok_all (watchdirs st) CHR '','') pre_dir) (\<lambda>_.
                andthen (echo_command (a0 # as) cmd) (\<lambda>cmd'.
                andthen (run_system cmd1 cmd') (\<lambda>status. after_command st status))))) s1)
          ((case cmdstr st of None \<Rightarrow> usage EXIT_FAILURE
            | Some cmd \<Rightarrow>
                andthen (open_output (outfile st)) (\<lambda>_.
                andthen (for_each (strtok_all (watchdirs st) CHR '','') pre_dir) (\<lambda>_.
                andthen (echo_command (a0 # as) cmd) (\<lambda>cmd'.
                andthen (run_system cmd2 cmd') (\<lambda>status. after_command st status))))) s1)"
  proof (cases "cmdstr st")
    case None
    then show ?thesis by simp
  next
    case (Some cmd)
    then show ?thesis
      using run_then_same [OF assms]
      by (auto intro!: same_outcome_andthen)
  qed
qed

lemma main_Inr:
  assumes "main command opts a0 as s = (Inr rc, s')"
  shows "\<exists>c w. rc = (if fst (command c w) \<noteq> 0 then EXIT_FAILURE else EXIT_SUCCESS)"
proof -
  from assms obtain st c s3 status s4 where
      "run_system command c s3 = (Inr status, s4)" and ac: "after_command st status s4 = (Inr rc, s')"
    unfolding main_def by (auto simp: andthen_Inr usage_def exit_with_def split: option.splits)
  then have "status = fst (command c (os s3))"
    by (auto simp: run_system_def split: prod.splits)
  with after_command_Inr [OF ac] show ?thesis by blast
qed

lemma main_run:
  assumes g: "getopt_loop opts \<lparr>cmdstr = None, outfile = None, watchdirs = ''.''\<rparr>
                (s0\<lparr>prog := after_last_slash a0 a0\<rparr>) = (Inr st, s1)"
    and c: "cmdstr st = Some cmd"
    and oo: "open_output (outfile st) s1 = (Inr u1, s2)"
    and pre: "for_each (strtok_all (watchdirs st) CHR '','') pre_dir s2 = (Inr u2, s3)"
    and ec: "echo_command (a0 # as) cmd s3 = (Inr cmd', s4)"
    and sy: "command cmd' (os s4) = (status, w)"
    and post: "for_each (strtok_all (watchdirs st) CHR '','') post_dir
                 (s4\<lparr>os := log (EvSystem cmd') w\<rparr>) = (Inr u3, s5)"
    and fin: "finish (outfile st) (twalk (tree2 s5) post_walk s5) = (Inr u4, s6)"
  shows "main command opts a0 as s0 =
           (Inr (if status \<noteq> 0 then EXIT_FAILURE else EXIT_SUCCESS), fflush_fp s6)"
  by (simp add: main_def andthen_def g c oo pre ec sy post fin run_system_def after_command_def
        Let_def classify_def exit_main_def)

lemma main_run_stdout:
  assumes "outfile st = None" "fp s5 = Stdout"
    and fin: "finish (outfile st) (twalk (tree2 s5) post_walk s5) = (Inr u4, s6)"
  shows "stdout_txt (os (fflush_fp s6)) =
           stdout_txt (os s5) @ fp_buf s5 @
           concat (map (entry_text (verbosity s5)) (inorder (tree2 s5)))"
  using assms
  by (auto simp: finish_def return_eq twalk_def twalk_from_post_walk fflush_fp_def)

text \<open>
  C7. Let option parsing, the opening of the output and the pre-run walks succeed, and
  let \<open>system\<close> return \<open>status\<close>, zero or not, leaving the operating system in \<open>w\<close>.
  Then \<open>main\<close> runs the post-run walks on that state; when they and the handling of the
  output file meet no fatal error, \<open>main\<close> ends in \<open>exit(rc)\<close> on the state reached by
  \<open>twalk(tree2, post_walk)\<close> and the output-file handling, with \<open>rc = EXIT_FAILURE\<close>
  (non-zero) if \<open>status\<close> is non-zero and \<open>rc = EXIT_SUCCESS\<close> (zero) otherwise. The
  text of every entry of \<open>tree2\<close> has been appended to \<open>fp\<close>, and without \<open>-o\<close> it is on
  standard output at the end. Moreover the value \<open>system\<close> returns has no influence on
  the final state: two commands with the same effects lead \<open>main\<close> to the same final
  state and the same fatal error, if any.
\<close>

theorem C7_command_failure_not_fatal:
  "(getopt_loop opts \<lparr>cmdstr = None, outfile = None, watchdirs = ''.''\<rparr>
        (s0\<lparr>prog := after_last_slash a0 a0\<rparr>) = (Inr st, s1) \<and>
    cmdstr st = Some cmd \<and>
    open_output (outfile st) s1 = (Inr u1, s2) \<and>
    for_each (strtok_all (watchdirs st) CHR '','') pre_dir s2 = (Inr u2, s3) \<and>
    echo_command (a0 # as) cmd s3 = (Inr cmd', s4) \<and>
    command cmd' (os s4) = (status, w) \<and>
    for_each (strtok_all (watchdirs st) CHR '','') post_dir
      (s4\<lparr>os := log (EvSystem cmd') w\<rparr>) = (Inr u3, s5) \<and>
    finish (outfile st) (twalk (tree2 s5) post_walk s5) = (Inr u4, s6) \<longrightarrow>
      main command opts a0 as s0 =
        (Inr (if status \<noteq> 0 then EXIT_FAILURE else EXIT_SUCCESS), fflush_fp s6) \<and>
      fp_buf (twalk (tree2 s5) post_walk s5) =
        fp_buf s5 @ concat (map (entry_text (verbosity s5)) (inorder (tree2 s5))) \<and>
      (outfile st = None \<and> fp s5 = Stdout \<longrightarrow>
         stdout_txt (os (snd (main command opts a0 as s0))) =
           stdout_txt (os s5) @ fp_buf s5 @
           concat (map (entry_text (verbosity s5)) (inorder (tree2 s5)))))
   \<and> ((\<forall>c w. snd (cmd1 c w) = snd (cmd2 c w)) \<longrightarrow>
        snd (main cmd1 opts a0 as s0) = snd (main cmd2 opts a0 as s0) \<and>
        (\<forall>e. fst (main cmd1 opts a0 as s0) = Inl e \<longleftrightarrow> fst (main cmd2 opts a0 as s0) = Inl e))
   \<and> EXIT_FAILURE \<noteq> 0 \<and> EXIT_SUCCESS = 0"
proof -
  have A: "main command opts a0 as s0 =
        (Inr (if status \<noteq> 0 then EXIT_FAILURE else EXIT_SUCCESS), fflush_fp s6) \<and>
      fp_buf (twalk (tree2 s5) post_walk s5) =
        fp_buf s5 @ concat (map (entry_text (verbosity s5)) (inorder (tree2 s5))) \<and>
      (outfile st = None \<and> fp s5 = Stdout \<longrightarrow>
         stdout_txt (os (snd (main command opts a0 as s0))) =
           stdout_txt (os s5) @ fp_buf s5 @
           concat (map (entry_text (verbosity s5)) (inorder (tree2 s5))))"
    if g: "getopt_loop opts \<lparr>cmdstr = None, outfile = None, watchdirs = ''.''\<rparr>
                (s0\<lparr>prog := after_last_slash a0 a0\<rparr>) = (Inr st, s1)"
    and c: "cmdstr st = Some cmd"
    and oo: "open_output (outfile st) s1 = (Inr u1, s2)"
    and pre: "for_each (strtok_all (watchdirs st) CHR '','') pre_dir s2 = (Inr u2, s3)"
    and ec: "echo_command (a0 # as) cmd s3 = (Inr cmd', s4)"
    and sy: "command cmd' (os s4) = (status, w)"
    and post: "for_each (strtok_all (watchdirs st) CHR '','') post_dir
                 (s4\<lparr>os := log (EvSystem cmd') w\<rparr>) = (Inr u3, s5)"
    and fin: "finish (outfile st) (twalk (tree2 s5) post_walk s5) = (Inr u4, s6)"
  proof -
    note m = main_run [where command = command, OF g c oo pre ec sy post fin]
    have t: "fp_buf (twalk (tree2 s5) post_walk s5) =
        fp_buf s5 @ concat (map (entry_text (verbosity s5)) (inorder (tree2 s5)))"
      by (simp add: twalk_def twalk_from_post_walk)
    have o: "stdout_txt (os (snd (main command opts a0 as s0))) =
           stdout_txt (os s5) @ fp_buf s5 @
           concat (map (entry_text (verbosity s5)) (inorder (tree2 s5)))"
      if "outfile st = None \<and> fp s5 = Stdout"
      using main_run_stdout [OF _ _ fin] that by (simp add: m)
    from m t o show ?thesis by blast
  qed
  have B: "snd (main cmd1 opts a0 as s0) = snd (main cmd2 opts a0 as s0) \<and>
      (\<forall>e. fst (main cmd1 opts a0 as s0) = Inl e \<longleftrightarrow> fst (main cmd2 opts a0 as s0) = Inl e)"
    if "\<forall>c w. snd (cmd1 c w) = snd (cmd2 c w)"
    using main_same [of cmd1 cmd2 opts a0 as s0] that by (simp add: same_outcome_def)
  have C: "EXIT_FAILURE \<noteq> 0 \<and> EXIT_SUCCESS = 0"
    by (simp add: EXIT_FAILURE_def EXIT_SUCCESS_def)
  from A B C show ?thesis by blast
qed

theorem C7_witness:
  "fst (main (ex_cmd 1) [Opt_c ''cat d/f; false'', Opt_w ''d''] ''/usr/bin/pmash''
          [''-c'', ''cat d/f; false'', ''-w'', ''d''] ex_state_f) = Inr EXIT_FAILURE \<and>
   stdout_txt (os (snd (main (ex_cmd 1) [Opt_c ''cat d/f; false'', Opt_w ''d''] ''/usr/bin/pmash''
          [''-c'', ''cat d/f; false'', ''-w'', ''d''] ex_state_f))) = ''d/f'' @ [CHR 0x0A] \<and>
   snd (main (ex_cmd 1) [Opt_c ''cat d/f; false'', Opt_w ''d''] ''/usr/bin/pmash''
          [''-c'', ''cat d/f; false'', ''-w'', ''d''] ex_state_f) =
   snd (main (ex_cmd 0) [Opt_c ''cat d/f; false'', Opt_w ''d''] ''/usr/bin/pmash''
          [''-c'', ''cat d/f; false'', ''-w'', ''d''] ex_state_f)"
proof -
  let ?o = "[Opt_c ''cat d/f; false'', Opt_w ''d'']"
  let ?pr = "''/usr/bin/pmash''"
  let ?a = "[''-c'', ''cat d/f; false'', ''-w'', ''d'']"
  let ?cmd = "''cat d/f; false''"
  let ?st = "\<lparr>cmdstr = Some ?cmd, outfile = None, watchdirs = ''d''\<rparr>"
  let ?g = "getopt_loop ?o \<lparr>cmdstr = None, outfile = None, watchdirs = ''.''\<rparr>
              (ex_state_f\<lparr>prog := after_last_slash ?pr ?pr\<rparr>)"
  let ?s1 = "snd ?g"
  let ?oo = "open_output (outfile ?st) ?s1"
  let ?s2 = "snd ?oo"
  let ?pre = "for_each (strtok_all (watchdirs ?st) CHR '','') pre_dir ?s2"
  let ?s3 = "snd ?pre"
  let ?ec = "echo_command (?pr # ?a) ?cmd ?s3"
  let ?s4 = "snd ?ec"
  let ?w = "snd (ex_cmd 1 ?cmd (os ?s4))"
  let ?post = "for_each (strtok_all (watchdirs ?st) CHR '','') post_dir
                 (?s4\<lparr>os := log (EvSystem ?cmd) ?w\<rparr>)"
  let ?s5 = "snd ?post"
  let ?fin = "finish (outfile ?st) (twalk (tree2 ?s5) post_walk ?s5)"
  let ?s6 = "snd ?fin"
  let ?x = "main (ex_cmd 1) ?o ?pr ?a ex_state_f"
  have "fst ?g = Inr ?st" by simp
  then have g: "?g = (Inr ?st, ?s1)" by (simp add: prod_eq_iff)
  have c: "cmdstr ?st = Some ?cmd" by simp
  have "fst ?oo = Inr ()" by code_simp
  then have oo: "?oo = (Inr (), ?s2)" by (simp add: prod_eq_iff)
  have "fst ?pre = Inr ()" by code_simp
  then have pre: "?pre = (Inr (), ?s3)" by (simp add: prod_eq_iff)
  have "fst ?ec = Inr ?cmd" by code_simp
  then have ec: "?ec = (Inr ?cmd, ?s4)" by (simp add: prod_eq_iff)
  have sy: "ex_cmd 1 ?cmd (os ?s4) = (1, ?w)" by (simp add: ex_cmd_def)
  have "fst ?post = Inr ()" by code_simp
  then have post: "?post = (Inr (), ?s5)" by (simp add: prod_eq_iff)
  have "fst ?fin = Inr ()" by code_simp
  then have fin: "?fin = (Inr (), ?s6)" by (simp add: prod_eq_iff)
  note T = C7_command_failure_not_fatal [where command = "ex_cmd 1" and opts = ?o and ?a0.0 = ?pr
      and as = ?a and ?s0.0 = ex_state_f and st = ?st and ?s1.0 = ?s1 and cmd = ?cmd
      and ?u1.0 = "()" and ?s2.0 = ?s2 and ?u2.0 = "()" and ?s3.0 = ?s3 and cmd' = ?cmd
      and ?s4.0 = ?s4 and status = 1 and w = ?w and ?u3.0 = "()" and ?s5.0 = ?s5
      and ?u4.0 = "()" and ?s6.0 = ?s6 and ?cmd1.0 = "ex_cmd 1" and ?cmd2.0 = "ex_cmd 0"]
  from T g c oo pre ec sy post fin
  have m: "?x = (Inr (if (1::int) \<noteq> 0 then EXIT_FAILURE else EXIT_SUCCESS), fflush_fp ?s6)"
    by blast
  then have r: "fst ?x = Inr EXIT_FAILURE" by simp
  have same: "\<forall>c w. snd (ex_cmd 1 c w) = snd (ex_cmd 0 c w)" by (simp add: ex_cmd_def)
  with T have e: "snd ?x = snd (main (ex_cmd 0) ?o ?pr ?a ex_state_f)" by blast
  have d: "stdout_txt (os (snd ?x)) = ''d/f'' @ [CHR 0x0A]" by code_simp
  from r d e show ?thesis by blast
qed

section \<open>The output file\<close>

lemma concat_no_prereq:
  "\<forall>e \<in> set xs. \<not> prereq_of e \<Longrightarrow> concat (map (entry_text 0) xs) = []"
  by (induction xs) (auto simp: entry_text_def)

lemma finish_empty:
  assumes "files (os s) (canon name) = Some ino" "i_data ino = []" "fp_buf s = []"
    and "ncalls (os s) \<notin> faults (os s)" "Suc (ncalls (os s)) \<notin> faults (os s)"
  shows "\<exists>s'. finish (Some name) s = (Inr (), s') \<and> canon name \<notin> dom (files (os s'))"
  using assms
  by (simp add: finish_def andthen_def call_def syscall_def sys_stat_def sys_unlink_def tick_def
        insist_def return_def log_def fflush_fp_def stat_of_def Let_def)

lemma finish_nonempty:
  assumes "fp s = Outfile name" "files (os s) (canon name) = Some ino" "fp_buf s \<noteq> []"
    and "finish (Some name) s = (r, s')"
  shows "r = Inr () \<and>
         files (os s') (canon name) =
           Some (ino\<lparr>i_data := i_data ino @ fp_buf s, i_mtim := clock (os s)\<rparr>)"
  using assms
  by (auto simp add: finish_def andthen_def call_def syscall_def sys_stat_def tick_def
        insist_def return_def log_def fflush_fp_def stat_of_def Let_def
        split: if_splits option.splits)

lemma concat_entry_text_0:
  "concat (map (entry_text 0) xs) = [] \<longleftrightarrow> (\<forall>e \<in> set xs. \<not> prereq_of e)"
  by (induction xs) (auto simp: entry_text_def)

lemma concat_entry_text_verbose:
  "v \<noteq> 0 \<Longrightarrow> concat (map (entry_text v) xs) = [] \<longleftrightarrow> xs = []"
  by (cases xs) (auto simp: entry_text_def)

lemma inorder_Nil_iff: "inorder t = [] \<longleftrightarrow> t = Empty"
  by (cases t) auto

lemma finish_nonempty_flushed:
  assumes "fp s = Outfile name" "files (os s) (canon name) = Some ino" "fp_buf s \<noteq> []"
    and "finish (Some name) s = (r, s')"
  shows "fp_buf s' = []"
  using assms
  by (auto simp add: finish_def andthen_def call_def syscall_def sys_stat_def tick_def
        insist_def return_def log_def fflush_fp_def stat_of_def Let_def
        split: if_splits option.splits)

lemma fflush_fp_empty: "fp_buf s = [] \<Longrightarrow> fflush_fp s = s"
  by (simp add: fflush_fp_def)

text \<open>
  C8 (amended). Let the output file exist and be empty, with nothing buffered, as
  \<open>fopen\<close> left it, and consider what \<open>main\<close> does from the classification to its
  final \<open>exit(rc)\<close>. Whenever the classification writes nothing, at any verbosity, and
  \<open>stat\<close> and \<open>unlink\<close> succeed, the run ends with \<open>rc\<close> and no output file. Whenever
  the classification writes something, the text is flushed to the file and the file is
  kept. At verbosity zero nothing is written exactly when \<open>tree2\<close> holds no
  prerequisite; at non-zero verbosity exactly when \<open>tree2\<close> is empty, since every entry
  gets a line. These steps are what \<open>main\<close> runs after the post-run walks when \<open>-o\<close>
  was given.
\<close>

theorem C8_output_file_removed_when_empty:
  "(files (os s) (canon name) = Some ino \<and> i_data ino = [] \<and> fp_buf s = [] \<and>
    ncalls (os s) \<notin> faults (os s) \<and> Suc (ncalls (os s)) \<notin> faults (os s) \<and>
    concat (map (entry_text (verbosity s)) (inorder (tree2 s))) = [] \<longrightarrow>
      (\<exists>s'. andthen classify (\<lambda>_. andthen (finish (Some name)) (\<lambda>_. exit_main rc)) s =
              (Inr rc, s') \<and>
            canon name \<notin> dom (files (os s'))))
   \<and> (fp s = Outfile name \<and> files (os s) (canon name) = Some ino \<and> fp_buf s = [] \<and>
       concat (map (entry_text (verbosity s)) (inorder (tree2 s))) \<noteq> [] \<and>
       andthen classify (\<lambda>_. andthen (finish (Some name)) (\<lambda>_. exit_main rc)) s = (r, s2) \<longrightarrow>
        r = Inr rc \<and>
        files (os s2) (canon name) =
          Some (ino\<lparr>i_data := i_data ino @
                        concat (map (entry_text (verbosity s)) (inorder (tree2 s))),
                    i_mtim := clock (os s)\<rparr>))
   \<and> (verbosity s = 0 \<longrightarrow>
        (concat (map (entry_text (verbosity s)) (inorder (tree2 s))) = [] \<longleftrightarrow>
         (\<forall>e \<in> set (inorder (tree2 s)). \<not> prereq_of e)))
   \<and> (verbosity s \<noteq> 0 \<longrightarrow>
        (concat (map (entry_text (verbosity s)) (inorder (tree2 s))) = [] \<longleftrightarrow>
         tree2 s = Empty))
   \<and> (outfile st = Some name \<and>
       for_each (strtok_all (watchdirs st) CHR '','') post_dir s0 = (Inr u, s) \<longrightarrow>
        after_command st status s0 =
          andthen classify (\<lambda>_. andthen (finish (Some name))
            (\<lambda>_. exit_main (if status \<noteq> 0 then EXIT_FAILURE else EXIT_SUCCESS))) s)"
proof -
  let ?text = "concat (map (entry_text (verbosity s)) (inorder (tree2 s)))"
  have A: "\<exists>s'. andthen classify (\<lambda>_. andthen (finish (Some name)) (\<lambda>_. exit_main rc)) s =
              (Inr rc, s') \<and> canon name \<notin> dom (files (os s'))"
    if h: "files (os s) (canon name) = Some ino \<and> i_data ino = [] \<and> fp_buf s = [] \<and>
       ncalls (os s) \<notin> faults (os s) \<and> Suc (ncalls (os s)) \<notin> faults (os s) \<and> ?text = []"
  proof -
    from h have "classify s = (Inr (), s)" by (simp add: classify_eq)
    moreover from finish_empty [of s name ino] h obtain s1 where
      f: "finish (Some name) s = (Inr (), s1)" and g: "canon name \<notin> dom (files (os s1))" by blast
    ultimately have "andthen classify (\<lambda>_. andthen (finish (Some name)) (\<lambda>_. exit_main rc)) s =
        (Inr rc, fflush_fp s1)"
      by (simp add: andthen_def exit_main_def)
    moreover have "canon name \<notin> dom (files (os (fflush_fp s1)))" using g by simp
    ultimately show ?thesis by blast
  qed
  have B: "r = Inr rc \<and> files (os s2) (canon name) =
          Some (ino\<lparr>i_data := i_data ino @ ?text, i_mtim := clock (os s)\<rparr>)"
    if h: "fp s = Outfile name \<and> files (os s) (canon name) = Some ino \<and> fp_buf s = [] \<and>
       ?text \<noteq> [] \<and>
       andthen classify (\<lambda>_. andthen (finish (Some name)) (\<lambda>_. exit_main rc)) s = (r, s2)"
  proof -
    let ?s1 = "s\<lparr>fp_buf := fp_buf s @ ?text\<rparr>"
    from h have h1: "fp s = Outfile name" and h2: "files (os s) (canon name) = Some ino"
      and h3: "fp_buf s = []" and h4: "?text \<noteq> []"
      and h5: "andthen classify (\<lambda>_. andthen (finish (Some name)) (\<lambda>_. exit_main rc)) s = (r, s2)"
      by blast+
    obtain r1 s3 where fin: "finish (Some name) ?s1 = (r1, s3)" by (cases "finish (Some name) ?s1")
    have p: "fp ?s1 = Outfile name" "files (os ?s1) (canon name) = Some ino" "fp_buf ?s1 \<noteq> []"
      using h1 h2 h3 h4 by simp_all
    from finish_nonempty [OF p fin] have r1: "r1 = Inr ()"
      and fl: "files (os s3) (canon name) =
           Some (ino\<lparr>i_data := i_data ino @ fp_buf ?s1, i_mtim := clock (os ?s1)\<rparr>)" by blast+
    from finish_nonempty_flushed [OF p fin] have "fflush_fp s3 = s3" by (rule fflush_fp_empty)
    with h5 fin r1 have "r = Inr rc" "s2 = s3"
      by (simp_all add: andthen_def classify_eq exit_main_def)
    with fl h3 show ?thesis by simp
  qed
  have C: "verbosity s = 0 \<longrightarrow> (?text = [] \<longleftrightarrow> (\<forall>e \<in> set (inorder (tree2 s)). \<not> prereq_of e))"
    using concat_entry_text_0 [of "inorder (tree2 s)"] by simp
  have D: "verbosity s \<noteq> 0 \<longrightarrow> (?text = [] \<longleftrightarrow> tree2 s = Empty)"
    using concat_entry_text_verbose [of "verbosity s" "inorder (tree2 s)"] inorder_Nil_iff [of "tree2 s"]
    by simp
  have E: "after_command st status s0 =
          andthen classify (\<lambda>_. andthen (finish (Some name))
            (\<lambda>_. exit_main (if status \<noteq> 0 then EXIT_FAILURE else EXIT_SUCCESS))) s"
    if "outfile st = Some name \<and>
       for_each (strtok_all (watchdirs st) CHR '','') post_dir s0 = (Inr u, s)"
    using that by (simp add: after_command_def Let_def andthen_def)
  from A B C D E show ?thesis by blast
qed

theorem C8_witness:
  "fst (andthen classify (\<lambda>_. andthen (finish (Some ''out'')) (\<lambda>_. exit_main 0)) (ex_state_out 0))
     = Inr 0 \<and>
   canon ''out'' \<notin> dom (files (os (snd
     (andthen classify (\<lambda>_. andthen (finish (Some ''out'')) (\<lambda>_. exit_main 0)) (ex_state_out 0))))) \<and>
   fst (andthen classify (\<lambda>_. andthen (finish (Some ''out'')) (\<lambda>_. exit_main 0))
          ((ex_state_out 1)\<lparr>tree2 := Empty\<rparr>)) = Inr 0 \<and>
   canon ''out'' \<notin> dom (files (os (snd
     (andthen classify (\<lambda>_. andthen (finish (Some ''out'')) (\<lambda>_. exit_main 0))
        ((ex_state_out 1)\<lparr>tree2 := Empty\<rparr>))))) \<and>
   map prereq_of (inorder (tree2 (ex_state_out 1))) = [False] \<and>
   map_option i_data (files (os (snd
     (andthen classify (\<lambda>_. andthen (finish (Some ''out'')) (\<lambda>_. exit_main 0)) (ex_state_out 1))))
       (canon ''out'')) =
     Some (concat (map (entry_text (verbosity (ex_state_out 1))) (inorder (tree2 (ex_state_out 1)))))"
proof -
  let ?ino = "\<lparr>i_atim = clock ex_world, i_mtim = clock ex_world, i_data = []\<rparr>"
  let ?tail = "andthen classify (\<lambda>_. andthen (finish (Some ''out'')) (\<lambda>_. exit_main 0))"
  let ?e1 = "(ex_state_out 1)\<lparr>tree2 := Empty\<rparr>"
  have a: "files (os (ex_state_out v)) (canon ''out'') = Some ?ino"
      "files (os ((ex_state_out v)\<lparr>tree2 := Empty\<rparr>)) (canon ''out'') = Some ?ino" for v
    by (simp_all add: ex_state_out_def ex_state_def)
  have b: "i_data ?ino = []" "fp_buf (ex_state_out v) = []" "fp (ex_state_out v) = Outfile ''out''"
      "fp_buf ((ex_state_out v)\<lparr>tree2 := Empty\<rparr>) = []" for v
    by (simp_all add: ex_state_out_def ex_state_def)
  have c: "ncalls (os (ex_state_out v)) \<notin> faults (os (ex_state_out v))"
      "Suc (ncalls (os (ex_state_out v))) \<notin> faults (os (ex_state_out v))"
      "ncalls (os ((ex_state_out v)\<lparr>tree2 := Empty\<rparr>)) \<notin> faults (os ((ex_state_out v)\<lparr>tree2 := Empty\<rparr>))"
      "Suc (ncalls (os ((ex_state_out v)\<lparr>tree2 := Empty\<rparr>))) \<notin> faults (os ((ex_state_out v)\<lparr>tree2 := Empty\<rparr>))"
      for v
    by (simp_all add: ex_state_out_def ex_state_def ex_world_def)
  have t0: "concat (map (entry_text (verbosity (ex_state_out 0))) (inorder (tree2 (ex_state_out 0)))) = []"
    by code_simp
  have t1: "concat (map (entry_text (verbosity ?e1)) (inorder (tree2 ?e1))) = []" by simp
  have t2: "concat (map (entry_text (verbosity (ex_state_out 1))) (inorder (tree2 (ex_state_out 1)))) \<noteq> []"
    by code_simp
  have p: "map prereq_of (inorder (tree2 (ex_state_out 1))) = [False]" by code_simp
  from C8_output_file_removed_when_empty [where s = "ex_state_out 0" and name = "''out''"
      and ino = ?ino and rc = 0] a(1) [of 0] b(1) b(2) [of 0] c(1) [of 0] c(2) [of 0] t0
  have "\<exists>s'. ?tail (ex_state_out 0) = (Inr 0, s') \<and> canon ''out'' \<notin> dom (files (os s'))" by blast
  then obtain s' where "?tail (ex_state_out 0) = (Inr 0, s')" "canon ''out'' \<notin> dom (files (os s'))"
    by blast
  then have 1: "fst (?tail (ex_state_out 0)) = Inr 0"
      "canon ''out'' \<notin> dom (files (os (snd (?tail (ex_state_out 0)))))" by simp_all
  from C8_output_file_removed_when_empty [where s = ?e1 and name = "''out''"
      and ino = ?ino and rc = 0] a(2) [of 1] b(1) b(4) [of 1] c(3) [of 1] c(4) [of 1] t1
  have "\<exists>s'. ?tail ?e1 = (Inr 0, s') \<and> canon ''out'' \<notin> dom (files (os s'))" by blast
  then obtain s'' where "?tail ?e1 = (Inr 0, s'')" "canon ''out'' \<notin> dom (files (os s''))"
    by blast
  then have 2: "fst (?tail ?e1) = Inr 0" "canon ''out'' \<notin> dom (files (os (snd (?tail ?e1))))"
    by simp_all
  have f: "?tail (ex_state_out 1) = (fst (?tail (ex_state_out 1)), snd (?tail (ex_state_out 1)))"
    by simp
  from C8_output_file_removed_when_empty [where s = "ex_state_out 1" and name = "''out''"
      and ino = ?ino and rc = 0 and r = "fst (?tail (ex_state_out 1))"
      and ?s2.0 = "snd (?tail (ex_state_out 1))"] a(1) [of 1] b(2) [of 1] b(3) [of 1] t2 f
  have "files (os (snd (?tail (ex_state_out 1)))) (canon ''out'') =
     Some (?ino\<lparr>i_data := i_data ?ino @ concat (map (entry_text (verbosity (ex_state_out 1)))
                                     (inorder (tree2 (ex_state_out 1)))),
             i_mtim := clock (os (ex_state_out 1))\<rparr>)" by blast
  then have 3: "map_option i_data (files (os (snd (?tail (ex_state_out 1)))) (canon ''out'')) =
     Some (concat (map (entry_text (verbosity (ex_state_out 1))) (inorder (tree2 (ex_state_out 1)))))"
    by simp
  from 1 2 p 3 show ?thesis by blast
qed

text \<open>
  C8 as stated fails at verbosity 1: with the unchanged file \<open>d/f\<close> in the watched
  directory and a command that does nothing, no prerequisite is found, yet the output
  file is left on disk holding the diagnostic line.
\<close>

theorem C8_counterexample:
  "(case main ex_true [Opt_V, Opt_o ''out'', Opt_c ''true'', Opt_w ''d''] ''pmash''
          [''-V'', ''-o'', ''out'', ''-c'', ''true'', ''-w'', ''d''] ex_state_f of
      (r, s') \<Rightarrow>
        r = Inr 0 \<and> map prereq_of (inorder (tree2 s')) = [False] \<and>
        map_option i_data (files (os s') ''out'') =
          Some (''## d/f                     : a1=0000000099.000000000 m1=0000000100.000000500 a2=0000000099.000000000 m2=0000000100.000000500'' @ [CHR 0x0A]))"
  by code_simp

end
